theory Spec2Isabelle
  imports Complex_Main
begin

section \<open>Python and numpy values\<close>

text \<open>
  Every \<open>raise\<close> of the source, and every exception its built-in operations raise, is a
  value of \<open>error\<close>; a function that can raise returns \<open>error + 'a\<close> with \<open>Inl\<close> for
  the exception. \<open>ebind\<close> sequences two such steps: the second runs only when the
  first returned.
\<close>

datatype error = ValueError | TypeError | IndexError | NotImplementedError | UnboundLocalError

definition ebind :: "error + 'a \<Rightarrow> ('a \<Rightarrow> error + 'b) \<Rightarrow> error + 'b" where
  "ebind m f = (case m of Inl e \<Rightarrow> Inl e | Inr a \<Rightarrow> f a)"

text \<open>
  The Python objects the source subscripts with \<open>[...]\<close>: only a list supports it.
  An \<open>int\<close>, a \<open>float\<close>, \<open>None\<close> and the view that \<open>dict.values()\<close> returns raise
  \<open>TypeError\<close> (the source uses annotated assignments, so it is Python 3, where
  \<open>dict.values()\<close> is a view and not a list).
\<close>

datatype 'a pyobj = PyInt int | PyFloat real | PyNone | PyList "'a list" | PyDictValues "'a list"

fun subscript :: "'a pyobj \<Rightarrow> nat \<Rightarrow> error + 'a" where
  "subscript (PyList xs) i = (if i < length xs then Inr (xs ! i) else Inl IndexError)"
| "subscript (PyInt n) i = Inl TypeError"
| "subscript (PyFloat x) i = Inl TypeError"
| "subscript PyNone i = Inl TypeError"
| "subscript (PyDictValues xs) i = Inl TypeError"

text \<open>\<open>xs[i]\<close> on a list, for an index that is not negative.\<close>

definition getitem :: "'a list \<Rightarrow> nat \<Rightarrow> error + 'a" where
  "getitem xs i = subscript (PyList xs) i"

text \<open>\<open>list.index\<close>: the position of the first element equal to \<open>a\<close>, \<open>ValueError\<close> when
  there is none.\<close>

fun index :: "'a list \<Rightarrow> 'a \<Rightarrow> error + nat" where
  "index [] a = Inl ValueError"
| "index (x # xs) a = (if x = a then Inr 0 else ebind (index xs a) (\<lambda>i. Inr (Suc i)))"

text \<open>
  A one-dimensional numpy array is the list of its entries; a two-dimensional one carries
  its shape, since an array with no row still has a column count. Entries are real
  numbers: rounding of floating-point arithmetic is not modelled.
\<close>

type_synonym vec = "real list"

datatype matrix = Matrix (nrows: nat) (ncols: nat) (rows: "real list list")

datatype ndarray = Array1 vec | Array2 matrix

definition wf_matrix :: "matrix \<Rightarrow> bool" where
  "wf_matrix M = (length (rows M) = nrows M \<and> list_all (\<lambda>r. length r = ncols M) (rows M))"

definition entry :: "matrix \<Rightarrow> nat \<Rightarrow> nat \<Rightarrow> real" where
  "entry M i j = rows M ! i ! j"

text \<open>\<open>np.zeros((m, n))\<close> and \<open>np.identity(n)\<close>.\<close>

definition zeros :: "nat \<Rightarrow> nat \<Rightarrow> matrix" where
  "zeros m n = Matrix m n (replicate m (replicate n 0))"

definition identity :: "nat \<Rightarrow> matrix" where
  "identity n = Matrix n n (map (\<lambda>i. map (\<lambda>j. if i = j then 1 else 0) [0..<n]) [0..<n])"

section \<open>States\<close>

text \<open>
  The external Lie group backend (\<open>pylie\<close>): one record per group class, holding the
  class attribute \<open>dof\<close> and the static methods the source calls. \<open>inverse_vec\<close> and
  \<open>Log_vec\<close> are \<open>inverse\<close> and \<open>Log\<close> handed a one-dimensional array instead of a
  group element, where the backend may raise.
\<close>

record lie_group =
  group_dof :: nat
  Exp :: "ndarray \<Rightarrow> matrix"
  Log :: "matrix \<Rightarrow> ndarray"
  inverse_g :: "matrix \<Rightarrow> matrix"
  adjoint :: "matrix \<Rightarrow> matrix"
  left_jacobian :: "ndarray \<Rightarrow> matrix"
  odot :: "ndarray \<Rightarrow> matrix"
  inverse_vec :: "vec \<Rightarrow> error + ndarray"
  Log_vec :: "vec \<Rightarrow> error + ndarray"

text \<open>
  Modelled from the spec: the base class \<open>State\<close> of \<open>pynav.types\<close> is not among the
  source files. It holds the four attributes its subclasses pass to its constructor:
  \<open>value\<close>, \<open>dof\<close>, the optional \<open>stamp\<close> and the optional \<open>state_id\<close>.
\<close>

record ('v, 'i) State =
  value' :: 'v
  dof :: nat
  stamp :: "real option"
  state_id :: "'i option"

text \<open>
  A \<open>VectorState\<close> has a one-dimensional value (its constructor ravels it). A
  \<open>MatrixLieGroupState\<close> adds the group and the perturbation direction, a string;
  \<open>cls\<close> records which subclass the object is. The sub-states of a composite are
  states of these two kinds.
\<close>

type_synonym 'i VectorState = "(vec, 'i) State"

datatype lie_class = MatrixLieGroupStateC | SO2State | SO3State | SE2State | SE3State | SE23State

record 'i MatrixLieGroupState = "(matrix, 'i) State" +
  group :: lie_group
  direction :: string
  cls :: lie_class

datatype 'i any_state = Vector "'i VectorState" | Lie "'i MatrixLieGroupState"

fun dof_of :: "'i any_state \<Rightarrow> nat" where
  "dof_of (Vector s) = dof s"
| "dof_of (Lie s) = dof s"

fun stamp_of :: "'i any_state \<Rightarrow> real option" where
  "stamp_of (Vector s) = stamp s"
| "stamp_of (Lie s) = stamp s"

fun state_id_of :: "'i any_state \<Rightarrow> 'i option" where
  "state_id_of (Vector s) = state_id s"
| "state_id_of (Lie s) = state_id s"

text \<open>\<open>VectorState.__init__\<close>: the degrees of freedom are the size of the value.\<close>

definition VectorState_init :: "vec \<Rightarrow> real option \<Rightarrow> 'i option \<Rightarrow> 'i VectorState" where
  "VectorState_init v st sid = \<lparr>value' = v, dof = length v, stamp = st, state_id = sid\<rparr>"

section \<open>Composite state\<close>

text \<open>
  A \<open>CompositeState\<close> holds the list of sub-states as its value, its own stamp and
  identifier, and the table \<open>_slices\<close> of half-open ranges \<open>slice(start, stop)\<close>, here
  pairs \<open>(start, stop)\<close>. The constructor's loop appends one slice per sub-state and
  advances \<open>counter\<close> by the sub-state's \<open>dof\<close>.
\<close>

record 'i CompositeState =
  substates :: "'i any_state list"
  cstamp :: "real option"
  cstate_id :: "'i option"
  slices :: "(nat \<times> nat) list"

fun slices_loop :: "'i any_state list \<Rightarrow> nat \<Rightarrow> (nat \<times> nat) list \<Rightarrow> (nat \<times> nat) list" where
  "slices_loop [] counter acc = acc"
| "slices_loop (s # ss) counter acc =
     slices_loop ss (counter + dof_of s) (acc @ [(counter, counter + dof_of s)])"

definition CompositeState_init ::
  "'i any_state list \<Rightarrow> real option \<Rightarrow> 'i option \<Rightarrow> 'i CompositeState" where
  "CompositeState_init state_list st sid =
     \<lparr>substates = state_list, cstamp = st, cstate_id = sid,
      slices = slices_loop state_list 0 []\<rparr>"

text \<open>The property \<open>dof\<close>: \<open>sum([x.dof for x in self.value])\<close>.\<close>

definition composite_dof :: "'i CompositeState \<Rightarrow> nat" where
  "composite_dof c = sum_list (map dof_of (substates c))"

definition get_index_by_id :: "'i CompositeState \<Rightarrow> 'i option \<Rightarrow> error + nat" where
  "get_index_by_id c sid = index (map state_id_of (substates c)) sid"

definition get_slice_by_id :: "'i CompositeState \<Rightarrow> 'i option \<Rightarrow> error + (nat \<times> nat)" where
  "get_slice_by_id c sid = ebind (get_index_by_id c sid) (\<lambda>idx. getitem (slices c) idx)"

definition get_state_by_id :: "'i CompositeState \<Rightarrow> 'i option \<Rightarrow> error + 'i any_state" where
  "get_state_by_id c sid = ebind (get_index_by_id c sid) (\<lambda>idx. getitem (substates c) idx)"

text \<open>
  \<open>get_dof_by_id\<close> and \<open>get_stamp_by_id\<close> subscript the sub-state's \<open>dof\<close> and
  \<open>stamp\<close> with the list index. The \<open>dof\<close> is a Python \<open>int\<close> (\<open>value.size\<close> or the
  group's \<open>dof\<close>); the stamp is what its annotation \<open>stamp: float = None\<close> says, a
  Python \<open>float\<close> or \<open>None\<close>. (A numpy scalar as stamp is not modelled: subscripting
  one raises as well, with \<open>IndexError\<close>.)
\<close>

definition dof_obj :: "'i any_state \<Rightarrow> real pyobj" where
  "dof_obj s = PyInt (int (dof_of s))"

definition stamp_obj :: "'i any_state \<Rightarrow> real pyobj" where
  "stamp_obj s = (case stamp_of s of None \<Rightarrow> PyNone | Some t \<Rightarrow> PyFloat t)"

definition get_dof_by_id :: "'i CompositeState \<Rightarrow> 'i option \<Rightarrow> error + real" where
  "get_dof_by_id c sid =
     ebind (get_index_by_id c sid) (\<lambda>idx.
       ebind (getitem (substates c) idx) (\<lambda>s. subscript (dof_obj s) idx))"

definition get_stamp_by_id :: "'i CompositeState \<Rightarrow> 'i option \<Rightarrow> error + real" where
  "get_stamp_by_id c sid =
     ebind (get_index_by_id c sid) (\<lambda>idx.
       ebind (getitem (substates c) idx) (\<lambda>s. subscript (stamp_obj s) idx))"

section \<open>numpy operations\<close>

text \<open>
  Elementwise arithmetic of two one-dimensional arrays, with numpy's broadcasting: equal
  lengths combine entry by entry, an array of length one is stretched over the other, and
  any other pair of lengths raises \<open>ValueError\<close>.
\<close>

definition broadcast1 :: "(real \<Rightarrow> real \<Rightarrow> real) \<Rightarrow> vec \<Rightarrow> vec \<Rightarrow> error + vec" where
  "broadcast1 f xs ys =
     (if length xs = length ys then Inr (map2 f xs ys)
      else if length xs = 1 then Inr (map (f (hd xs)) ys)
      else if length ys = 1 then Inr (map (\<lambda>x. f x (hd ys)) xs)
      else Inl ValueError)"

definition np_add :: "vec \<Rightarrow> vec \<Rightarrow> error + vec" where
  "np_add = broadcast1 (+)"

definition np_sub :: "vec \<Rightarrow> vec \<Rightarrow> error + vec" where
  "np_sub = broadcast1 (-)"

text \<open>\<open>c * v\<close>, \<open>v * c\<close> and \<open>-v\<close> for a scalar \<open>c\<close> and a one-dimensional array \<open>v\<close>.\<close>

definition smul :: "real \<Rightarrow> vec \<Rightarrow> vec" where
  "smul c v = map (\<lambda>a. c * a) v"

definition muls :: "vec \<Rightarrow> real \<Rightarrow> vec" where
  "muls v c = map (\<lambda>a. a * c) v"

definition neg :: "vec \<Rightarrow> vec" where
  "neg v = map uminus v"

text \<open>\<open>a.flatten()\<close>, \<open>a[start:stop]\<close> (along the first axis, clipped to the array as
  Python slices are) and \<open>v.reshape((-1, 1))\<close>.\<close>

fun flatten :: "ndarray \<Rightarrow> vec" where
  "flatten (Array1 xs) = xs"
| "flatten (Array2 M) = concat (rows M)"

fun getslice :: "ndarray \<Rightarrow> nat \<times> nat \<Rightarrow> ndarray" where
  "getslice (Array1 xs) (a, b) = Array1 (take (b - a) (drop a xs))"
| "getslice (Array2 M) (a, b) =
     Array2 (Matrix (length (take (b - a) (drop a (rows M)))) (ncols M)
       (take (b - a) (drop a (rows M))))"

definition column :: "vec \<Rightarrow> matrix" where
  "column v = Matrix (length v) 1 (map (\<lambda>a. [a]) v)"

text \<open>Two-dimensional arrays: \<open>c * M\<close>, \<open>M / c\<close>, \<open>M.T\<close>, and \<open>A @ B\<close>, which raises
  \<open>ValueError\<close> unless the inner dimensions agree.\<close>

definition mat_scale :: "real \<Rightarrow> matrix \<Rightarrow> matrix" where
  "mat_scale c M = Matrix (nrows M) (ncols M) (map (map (\<lambda>a. c * a)) (rows M))"

definition mat_div :: "matrix \<Rightarrow> real \<Rightarrow> matrix" where
  "mat_div M c = Matrix (nrows M) (ncols M) (map (map (\<lambda>a. a / c)) (rows M))"

definition col :: "matrix \<Rightarrow> nat \<Rightarrow> vec" where
  "col M j = map (\<lambda>r. r ! j) (rows M)"

definition transpose_m :: "matrix \<Rightarrow> matrix" where
  "transpose_m M = Matrix (ncols M) (nrows M) (map (col M) [0..<ncols M])"

definition dot :: "vec \<Rightarrow> vec \<Rightarrow> real" where
  "dot xs ys = sum_list (map2 (*) xs ys)"

definition mat_prod :: "matrix \<Rightarrow> matrix \<Rightarrow> matrix" where
  "mat_prod A B =
     Matrix (nrows A) (ncols B) (map (\<lambda>r. map (\<lambda>j. dot r (col B j)) [0..<ncols B]) (rows A))"

definition matmul :: "matrix \<Rightarrow> matrix \<Rightarrow> error + matrix" where
  "matmul A B = (if ncols A = nrows B then Inr (mat_prod A B) else Inl ValueError)"

text \<open>\<open>v @ M\<close> and \<open>M @ v\<close> for a one-dimensional \<open>v\<close>: the result is one-dimensional.\<close>

definition vec_mat :: "vec \<Rightarrow> matrix \<Rightarrow> error + vec" where
  "vec_mat v M =
     (if length v = nrows M then Inr (map (\<lambda>j. dot v (col M j)) [0..<ncols M])
      else Inl ValueError)"

definition mat_vec :: "matrix \<Rightarrow> vec \<Rightarrow> error + vec" where
  "mat_vec M v =
     (if ncols M = length v then Inr (map (\<lambda>r. dot r v) (rows M)) else Inl ValueError)"

text \<open>The Frobenius norm \<open>np.linalg.norm\<close> of a two-dimensional array.\<close>

definition fro_norm :: "matrix \<Rightarrow> real" where
  "fro_norm M = sqrt (sum_list (map (\<lambda>a. a * a) (concat (rows M))))"

text \<open>
  Elementwise arithmetic of two two-dimensional arrays. Along each axis the sizes must be
  equal or one of them 1 (that array is stretched); \<open>bget\<close> reads the entry of a
  stretched array.
\<close>

definition bdim :: "nat \<Rightarrow> nat \<Rightarrow> nat option" where
  "bdim a b = (if a = b then Some a else if a = 1 then Some b else if b = 1 then Some a else None)"

definition bget :: "matrix \<Rightarrow> nat \<Rightarrow> nat \<Rightarrow> real" where
  "bget M i j = rows M ! (if nrows M = 1 then 0 else i) ! (if ncols M = 1 then 0 else j)"

definition broadcast2 :: "(real \<Rightarrow> real \<Rightarrow> real) \<Rightarrow> matrix \<Rightarrow> matrix \<Rightarrow> error + matrix" where
  "broadcast2 f A B =
     (case (bdim (nrows A) (nrows B), bdim (ncols A) (ncols B)) of
        (Some m, Some n) \<Rightarrow>
          Inr (Matrix m n (map (\<lambda>i. map (\<lambda>j. f (bget A i j) (bget B i j)) [0..<n]) [0..<m]))
      | _ \<Rightarrow> Inl ValueError)"

definition mat_add :: "matrix \<Rightarrow> matrix \<Rightarrow> error + matrix" where
  "mat_add = broadcast2 (+)"

definition mat_sub :: "matrix \<Rightarrow> matrix \<Rightarrow> error + matrix" where
  "mat_sub = broadcast2 (-)"

text \<open>
  \<open>jac[:, slc] = block\<close>: the slice is clipped to the columns of \<open>jac\<close>, and \<open>block\<close>
  must have the shape of the addressed columns, or size 1 along an axis where it is
  stretched; otherwise numpy raises \<open>ValueError\<close>.
\<close>

definition set_columns :: "matrix \<Rightarrow> nat \<times> nat \<Rightarrow> matrix \<Rightarrow> error + matrix" where
  "set_columns jac slc block =
     (let start = min (fst slc) (ncols jac); stop = min (snd slc) (ncols jac) in
      if (nrows block = nrows jac \<or> nrows block = 1) \<and>
         (ncols block = stop - start \<or> ncols block = 1)
      then Inr (Matrix (nrows jac) (ncols jac)
             (map (\<lambda>i. map (\<lambda>j. if start \<le> j \<and> j < stop then bget block i (j - start)
                                  else entry jac i j) [0..<ncols jac]) [0..<nrows jac]))
      else Inl ValueError)"

text \<open>\<open>np.block([A, B])\<close> of two-dimensional arrays puts them side by side and needs equal
  row counts; \<open>np.vstack\<close> turns every one-dimensional array into a single row, needs at
  least one array and equal column counts, and stacks the rows.\<close>

definition hstack2 :: "matrix \<Rightarrow> matrix \<Rightarrow> error + matrix" where
  "hstack2 A B =
     (if nrows A = nrows B
      then Inr (Matrix (nrows A) (ncols A + ncols B) (map2 (@) (rows A) (rows B)))
      else Inl ValueError)"

fun atleast_2d :: "ndarray \<Rightarrow> matrix" where
  "atleast_2d (Array1 xs) = Matrix 1 (length xs) [xs]"
| "atleast_2d (Array2 M) = M"

definition vstack :: "ndarray list \<Rightarrow> error + matrix" where
  "vstack arrs =
     (case map atleast_2d arrs of
        [] \<Rightarrow> Inl ValueError
      | M # Ms \<Rightarrow>
          if list_all (\<lambda>N. ncols N = ncols M) Ms
          then Inr (Matrix (sum_list (map nrows (M # Ms))) (ncols M) (concat (map rows (M # Ms))))
          else Inl ValueError)"

section \<open>Retractions: plus and minus\<close>

text \<open>
  \<open>plus\<close> assigns to \<open>self.value\<close>; the model returns the state with the new value.
  \<open>VectorState.plus\<close> adds the flattened increment, \<open>VectorState.minus\<close> subtracts the
  values (a one-dimensional array).
\<close>

definition VectorState_plus :: "'i VectorState \<Rightarrow> ndarray \<Rightarrow> error + 'i VectorState" where
  "VectorState_plus s dx = ebind (np_add (value' s) (flatten dx)) (\<lambda>v. Inr (s\<lparr>value' := v\<rparr>))"

definition VectorState_minus :: "'i VectorState \<Rightarrow> 'i VectorState \<Rightarrow> error + ndarray" where
  "VectorState_minus s x = ebind (np_sub (value' s) (value' x)) (\<lambda>v. Inr (Array1 v))"

text \<open>
  \<open>MatrixLieGroupState.plus\<close> and \<open>minus\<close> branch on the direction string and raise
  \<open>ValueError\<close> for a direction that is neither \<open>right\<close> nor \<open>left\<close>; both use the
  group of \<open>self\<close>.
\<close>

definition MatrixLieGroupState_plus ::
  "'i MatrixLieGroupState \<Rightarrow> ndarray \<Rightarrow> error + 'i MatrixLieGroupState" where
  "MatrixLieGroupState_plus s dx =
     (if direction s = ''right''
      then ebind (matmul (value' s) (Exp (group s) dx)) (\<lambda>v. Inr (s\<lparr>value' := v\<rparr>))
      else if direction s = ''left''
      then ebind (matmul (Exp (group s) dx) (value' s)) (\<lambda>v. Inr (s\<lparr>value' := v\<rparr>))
      else Inl ValueError)"

definition MatrixLieGroupState_minus ::
  "'i MatrixLieGroupState \<Rightarrow> 'i MatrixLieGroupState \<Rightarrow> error + ndarray" where
  "MatrixLieGroupState_minus s x =
     (if direction s = ''right''
      then ebind (matmul (inverse_g (group s) (value' x)) (value' s))
             (\<lambda>m. Inr (Log (group s) m))
      else if direction s = ''left''
      then ebind (matmul (value' s) (inverse_g (group s) (value' x)))
             (\<lambda>m. Inr (Log (group s) m))
      else Inl ValueError)"

text \<open>
  The two \<open>minus\<close> methods check no class, so each also runs on a state of the other
  kind. \<open>VectorState.minus\<close> then subtracts a matrix from a one-dimensional array,
  which numpy broadcasts as a single row. \<open>MatrixLieGroupState.minus\<close> then hands the
  one-dimensional value to the backend's \<open>inverse\<close>, multiplies what comes back with
  its own value, and takes \<open>Log\<close>.
\<close>

definition VectorState_minus_lie ::
  "'i VectorState \<Rightarrow> 'i MatrixLieGroupState \<Rightarrow> error + ndarray" where
  "VectorState_minus_lie s x =
     ebind (mat_sub (Matrix 1 (length (value' s)) [value' s]) (value' x)) (\<lambda>M. Inr (Array2 M))"

definition MatrixLieGroupState_minus_vector ::
  "'i MatrixLieGroupState \<Rightarrow> 'i VectorState \<Rightarrow> error + ndarray" where
  "MatrixLieGroupState_minus_vector s x =
     (if direction s = ''right''
      then ebind (inverse_vec (group s) (value' x)) (\<lambda>iv.
             case iv of
               Array2 Mi \<Rightarrow> ebind (matmul Mi (value' s)) (\<lambda>p. Inr (Log (group s) p))
             | Array1 w \<Rightarrow> ebind (vec_mat w (value' s)) (Log_vec (group s)))
      else if direction s = ''left''
      then ebind (inverse_vec (group s) (value' x)) (\<lambda>iv.
             case iv of
               Array2 Mi \<Rightarrow> ebind (matmul (value' s) Mi) (\<lambda>p. Inr (Log (group s) p))
             | Array1 w \<Rightarrow> ebind (mat_vec (value' s) w) (Log_vec (group s)))
      else Inl ValueError)"

text \<open>Method dispatch on a sub-state of a composite: the class of \<open>self\<close> picks the
  method.\<close>

fun plus_state :: "'i any_state \<Rightarrow> ndarray \<Rightarrow> error + 'i any_state" where
  "plus_state (Vector s) dx = ebind (VectorState_plus s dx) (\<lambda>s'. Inr (Vector s'))"
| "plus_state (Lie s) dx = ebind (MatrixLieGroupState_plus s dx) (\<lambda>s'. Inr (Lie s'))"

fun minus_state :: "'i any_state \<Rightarrow> 'i any_state \<Rightarrow> error + ndarray" where
  "minus_state (Vector s) (Vector x) = VectorState_minus s x"
| "minus_state (Lie s) (Lie x) = MatrixLieGroupState_minus s x"
| "minus_state (Vector s) (Lie x) = VectorState_minus_lie s x"
| "minus_state (Lie s) (Vector x) = MatrixLieGroupState_minus_vector s x"

fun set_stamp :: "real option \<Rightarrow> 'i any_state \<Rightarrow> 'i any_state" where
  "set_stamp t (Vector s) = Vector (s\<lparr>stamp := t\<rparr>)"
| "set_stamp t (Lie s) = Lie (s\<lparr>stamp := t\<rparr>)"

text \<open>
  \<open>CompositeState.plus\<close>: for every slice of the table, in order, the sub-state at the
  same index takes the part of \<open>dx\<close> the slice selects; then a new stamp, when given, is
  set on every sub-state. \<open>CompositeState.minus\<close>: for every sub-state of the argument,
  in order, the sub-state of \<open>self\<close> at the same index subtracts it, and \<open>np.vstack\<close>
  stacks the results.
\<close>

fun plus_loop ::
  "'i any_state list \<Rightarrow> nat \<Rightarrow> (nat \<times> nat) list \<Rightarrow> ndarray \<Rightarrow> error + 'i any_state list" where
  "plus_loop vs i [] dx = Inr vs"
| "plus_loop vs i (s # ss) dx =
     ebind (getitem vs i) (\<lambda>st.
       ebind (plus_state st (getslice dx s)) (\<lambda>st'.
         plus_loop (vs[i := st']) (Suc i) ss dx))"

definition CompositeState_plus ::
  "'i CompositeState \<Rightarrow> ndarray \<Rightarrow> real option \<Rightarrow> error + 'i CompositeState" where
  "CompositeState_plus c dx new_stamp =
     ebind (plus_loop (substates c) 0 (slices c) dx) (\<lambda>vs.
       Inr (c\<lparr>substates :=
              (case new_stamp of None \<Rightarrow> vs | Some t \<Rightarrow> map (set_stamp (Some t)) vs)\<rparr>))"

fun minus_loop :: "'i any_state list \<Rightarrow> nat \<Rightarrow> 'i any_state list \<Rightarrow> error + ndarray list" where
  "minus_loop selfv i [] = Inr []"
| "minus_loop selfv i (v # vs) =
     ebind (getitem selfv i) (\<lambda>s.
       ebind (minus_state s v) (\<lambda>d.
         ebind (minus_loop selfv (Suc i) vs) (\<lambda>ds. Inr (d # ds))))"

definition CompositeState_minus ::
  "'i CompositeState \<Rightarrow> 'i CompositeState \<Rightarrow> error + matrix" where
  "CompositeState_minus c x = ebind (minus_loop (substates c) 0 (substates x)) vstack"

text \<open>
  \<open>CompositeState.jacobian_from_blocks\<close>. The dictionary is the list of its items in
  insertion order. The first statement subscripts \<open>block_dict.values()\<close>; the loop then
  writes every block into the columns of its sub-state's slice.
\<close>

fun blocks_loop ::
  "'i CompositeState \<Rightarrow> matrix \<Rightarrow> ('i option \<times> matrix) list \<Rightarrow> error + matrix" where
  "blocks_loop c jac [] = Inr jac"
| "blocks_loop c jac ((sid, block) # rest) =
     ebind (get_slice_by_id c sid) (\<lambda>slc.
       ebind (set_columns jac slc block) (\<lambda>jac'. blocks_loop c jac' rest))"

definition jacobian_from_blocks ::
  "'i CompositeState \<Rightarrow> ('i option \<times> matrix) list \<Rightarrow> error + matrix" where
  "jacobian_from_blocks c block_dict =
     ebind (subscript (PyDictValues (map snd block_dict)) 0) (\<lambda>block.
       blocks_loop c (zeros (nrows block) (composite_dof c)) block_dict)"

section \<open>Process models\<close>

text \<open>
  Modelled from the spec: the class \<open>StampedValue\<close> of \<open>pynav.types\<close> is not among the
  source files. An input carries the two attributes the models read: \<open>value\<close>, here
  the entries of the array in order, and \<open>stamp\<close>.
\<close>

record StampedValue =
  uvalue :: vec
  ustamp :: "real option"

text \<open>
  \<open>SingleIntegrator\<close>. The constructor refuses a matrix \<open>Q\<close> that is not square and
  stores \<open>Q\<close> and its row count. \<open>evaluate\<close> assigns \<open>x.value + dt * u.value\<close> to the
  value of \<open>x\<close> and returns \<open>x\<close>.
\<close>

record SingleIntegrator =
  si_Q :: matrix
  dim :: nat

definition SingleIntegrator_init :: "matrix \<Rightarrow> error + SingleIntegrator" where
  "SingleIntegrator_init Q =
     (if nrows Q \<noteq> ncols Q then Inl ValueError else Inr \<lparr>si_Q = Q, dim = nrows Q\<rparr>)"

definition SingleIntegrator_evaluate ::
  "SingleIntegrator \<Rightarrow> 'i VectorState \<Rightarrow> StampedValue \<Rightarrow> real \<Rightarrow> error + 'i VectorState" where
  "SingleIntegrator_evaluate m x u dt =
     ebind (np_add (value' x) (smul dt (uvalue u))) (\<lambda>v. Inr (x\<lparr>value' := v\<rparr>))"

definition SingleIntegrator_jacobian ::
  "SingleIntegrator \<Rightarrow> 'i VectorState \<Rightarrow> StampedValue \<Rightarrow> real \<Rightarrow> matrix" where
  "SingleIntegrator_jacobian m x u dt = identity (dim m)"

definition SingleIntegrator_covariance ::
  "SingleIntegrator \<Rightarrow> 'i VectorState \<Rightarrow> StampedValue \<Rightarrow> real \<Rightarrow> matrix" where
  "SingleIntegrator_covariance m x u dt = mat_scale (dt ^ 2) (si_Q m)"

text \<open>
  \<open>BodyFrameVelocity\<close>. \<open>evaluate\<close> multiplies the value by \<open>Exp(u.value * dt)\<close> on the
  right, whatever the direction; \<open>jacobian\<close> and \<open>covariance\<close> have a branch for
  \<open>direction == "right"\<close> and raise \<open>NotImplementedError\<close> otherwise.
\<close>

record BodyFrameVelocity =
  bfv_Q :: matrix

definition BodyFrameVelocity_evaluate ::
  "BodyFrameVelocity \<Rightarrow> 'i MatrixLieGroupState \<Rightarrow> StampedValue \<Rightarrow> real \<Rightarrow>
     error + 'i MatrixLieGroupState" where
  "BodyFrameVelocity_evaluate m x u dt =
     ebind (matmul (value' x) (Exp (group x) (Array1 (muls (uvalue u) dt))))
       (\<lambda>v. Inr (x\<lparr>value' := v\<rparr>))"

definition BodyFrameVelocity_jacobian ::
  "BodyFrameVelocity \<Rightarrow> 'i MatrixLieGroupState \<Rightarrow> StampedValue \<Rightarrow> real \<Rightarrow> error + matrix" where
  "BodyFrameVelocity_jacobian m x u dt =
     (if direction x = ''right''
      then Inr (adjoint (group x) (Exp (group x) (Array1 (muls (neg (uvalue u)) dt))))
      else Inl NotImplementedError)"

definition BodyFrameVelocity_covariance ::
  "BodyFrameVelocity \<Rightarrow> 'i MatrixLieGroupState \<Rightarrow> StampedValue \<Rightarrow> real \<Rightarrow> error + matrix" where
  "BodyFrameVelocity_covariance m x u dt =
     (if direction x = ''right''
      then (let L = mat_scale dt (left_jacobian (group x) (Array1 (muls (neg (uvalue u)) dt)))
            in ebind (matmul L (bfv_Q m)) (\<lambda>LQ. matmul LQ (transpose_m L)))
      else Inl NotImplementedError)"

text \<open>
  \<open>RelativeBodyFrameVelocity\<close>. Every method first reshapes the input to two rows,
  \<open>u.value.reshape((2, round(u.value.size / 2)))\<close>. Python's \<open>round\<close> rounds a half to
  the even neighbour, and \<open>reshape\<close> raises \<open>ValueError\<close> unless the new shape has as
  many entries as the array.
\<close>

record RelativeBodyFrameVelocity =
  rbfv_Q1 :: matrix
  rbfv_Q2 :: matrix

definition round_half :: "nat \<Rightarrow> nat" where
  "round_half n =
     (if even n then n div 2 else if even (n div 2) then n div 2 else n div 2 + 1)"

definition reshape2 :: "vec \<Rightarrow> error + vec \<times> vec" where
  "reshape2 v =
     (let k = round_half (length v) in
      if 2 * k = length v then Inr (take k v, drop k v) else Inl ValueError)"

definition RelativeBodyFrameVelocity_evaluate ::
  "RelativeBodyFrameVelocity \<Rightarrow> 'i MatrixLieGroupState \<Rightarrow> StampedValue \<Rightarrow> real \<Rightarrow>
     error + 'i MatrixLieGroupState" where
  "RelativeBodyFrameVelocity_evaluate m x u dt =
     ebind (reshape2 (uvalue u)) (\<lambda>(u0, u1).
       ebind (matmul (Exp (group x) (Array1 (muls (neg u0) dt))) (value' x)) (\<lambda>v.
         ebind (matmul v (Exp (group x) (Array1 (muls u1 dt)))) (\<lambda>v'.
           Inr (x\<lparr>value' := v'\<rparr>))))"

definition RelativeBodyFrameVelocity_jacobian ::
  "RelativeBodyFrameVelocity \<Rightarrow> 'i MatrixLieGroupState \<Rightarrow> StampedValue \<Rightarrow> real \<Rightarrow>
     error + matrix" where
  "RelativeBodyFrameVelocity_jacobian m x u dt =
     ebind (reshape2 (uvalue u)) (\<lambda>(u0, u1).
       if direction x = ''right''
       then Inr (adjoint (group x) (Exp (group x) (Array1 (muls (neg u1) dt))))
       else Inl NotImplementedError)"

definition RelativeBodyFrameVelocity_covariance ::
  "RelativeBodyFrameVelocity \<Rightarrow> 'i MatrixLieGroupState \<Rightarrow> StampedValue \<Rightarrow> real \<Rightarrow>
     error + matrix" where
  "RelativeBodyFrameVelocity_covariance m x u dt =
     ebind (reshape2 (uvalue u)) (\<lambda>(u1, u2).
       if direction x = ''right''
       then
         ebind (matmul (value' x) (Exp (group x) (Array1 (muls u2 dt)))) (\<lambda>xe.
           ebind (matmul (mat_scale dt (adjoint (group x) xe))
                    (left_jacobian (group x) (Array1 (smul dt u1)))) (\<lambda>L1.
             let L2 = mat_scale dt (left_jacobian (group x) (Array1 (smul (- dt) u2))) in
             ebind (matmul L1 (rbfv_Q1 m)) (\<lambda>L1Q.
               ebind (matmul L1Q (transpose_m L1)) (\<lambda>P1.
                 ebind (matmul L2 (rbfv_Q2 m)) (\<lambda>L2Q.
                   ebind (matmul L2Q (transpose_m L2)) (\<lambda>P2. mat_add P1 P2))))))
       else Inl NotImplementedError)"

section \<open>Measurement models\<close>

text \<open>
  The named blocks of a matrix Lie group state. The base class and the rotation states
  raise \<open>NotImplementedError\<close> for the blocks they do not have; the pose states read
  them out of the value (\<open>value[0:r, 0:r]\<close> and \<open>value[0:r, j]\<close>).
\<close>

definition sub_block :: "matrix \<Rightarrow> nat \<Rightarrow> nat \<Rightarrow> matrix" where
  "sub_block M r c =
     Matrix (min r (nrows M)) (min c (ncols M)) (map (take c) (take r (rows M)))"

definition col_part :: "matrix \<Rightarrow> nat \<Rightarrow> nat \<Rightarrow> error + vec" where
  "col_part M r j = (if j < ncols M then Inr (col (sub_block M r (ncols M)) j) else Inl IndexError)"

definition attitude :: "'i MatrixLieGroupState \<Rightarrow> error + matrix" where
  "attitude x =
     (case cls x of
        MatrixLieGroupStateC \<Rightarrow> Inl NotImplementedError
      | SO2State \<Rightarrow> Inr (value' x)
      | SO3State \<Rightarrow> Inr (value' x)
      | SE2State \<Rightarrow> Inr (sub_block (value' x) 2 2)
      | SE3State \<Rightarrow> Inr (sub_block (value' x) 3 3)
      | SE23State \<Rightarrow> Inr (sub_block (value' x) 3 3))"

definition position :: "'i MatrixLieGroupState \<Rightarrow> error + vec" where
  "position x =
     (case cls x of
        MatrixLieGroupStateC \<Rightarrow> Inl NotImplementedError
      | SO2State \<Rightarrow> Inl NotImplementedError
      | SO3State \<Rightarrow> Inl NotImplementedError
      | SE2State \<Rightarrow> col_part (value' x) 2 2
      | SE3State \<Rightarrow> col_part (value' x) 3 3
      | SE23State \<Rightarrow> col_part (value' x) 3 4)"

text \<open>
  \<open>jacobian_from_blocks(attitude=..., position=...)\<close> of a state, called with both
  blocks as \<open>RangePoseToAnchor\<close> does. The base class (and \<open>SO2State\<close>, which inherits
  it) raises \<open>NotImplementedError\<close>; \<open>SO3State\<close> takes no \<open>position\<close> argument, so the
  call raises \<open>TypeError\<close>; the pose states put the blocks side by side, \<open>SE23State\<close>
  with a zero velocity block between them.
\<close>

definition state_jacobian_from_blocks ::
  "'i MatrixLieGroupState \<Rightarrow> matrix \<Rightarrow> matrix \<Rightarrow> error + matrix" where
  "state_jacobian_from_blocks x att pos =
     (case cls x of
        MatrixLieGroupStateC \<Rightarrow> Inl NotImplementedError
      | SO2State \<Rightarrow> Inl NotImplementedError
      | SO3State \<Rightarrow> Inl TypeError
      | SE2State \<Rightarrow> hstack2 att pos
      | SE3State \<Rightarrow> hstack2 att pos
      | SE23State \<Rightarrow> ebind (hstack2 att (zeros (nrows pos) 3)) (\<lambda>av. hstack2 av pos))"

text \<open>
  \<open>RangePoseToAnchor.jacobian\<close>. \<open>SO2\<close> and \<open>SO3\<close> are the two rotation groups of the
  backend; \<open>att_group\<close> is bound only when the attitude is 2 by 2 or 3 by 3, and its
  first use raises \<open>UnboundLocalError\<close> otherwise.
\<close>

record RangePoseToAnchor =
  r_cw_a :: vec
  r_tz_b :: vec
  rpa_R :: real

definition RangePoseToAnchor_jacobian ::
  "lie_group \<Rightarrow> lie_group \<Rightarrow> RangePoseToAnchor \<Rightarrow> 'i MatrixLieGroupState \<Rightarrow> error + matrix" where
  "RangePoseToAnchor_jacobian SO2 SO3 m x =
     (if direction x = ''right''
      then
        ebind (position x) (\<lambda>r_zw_a.
          ebind (attitude x) (\<lambda>C_ab.
            let att_group =
              (if (nrows C_ab, ncols C_ab) = (2, 2) then Some SO2
               else if (nrows C_ab, ncols C_ab) = (3, 3) then Some SO3
               else None)
            in
            ebind (matmul C_ab (column (r_tz_b m))) (\<lambda>Cr.
              ebind (mat_add Cr (column r_zw_a)) (\<lambda>r_tw_a.
                ebind (mat_sub r_tw_a (column (r_cw_a m))) (\<lambda>r_tc_a.
                  let rho = mat_div r_tc_a (fro_norm r_tc_a) in
                  ebind (matmul (transpose_m rho) C_ab) (\<lambda>rC.
                    case att_group of
                      None \<Rightarrow> Inl UnboundLocalError
                    | Some g \<Rightarrow>
                        ebind (matmul rC (odot g (Array1 (r_tz_b m)))) (\<lambda>jac_attitude.
                          ebind (matmul (transpose_m rho) C_ab) (\<lambda>jac_position.
                            state_jacobian_from_blocks x jac_attitude jac_position))))))))
      else Inl NotImplementedError)"

text \<open>
  \<open>CompositeMeasurementModel\<close> wraps a measurement model, given by its three methods,
  and the identifier of the sub-state it applies to.
\<close>

record 'i MeasurementModel =
  mm_evaluate :: "'i any_state \<Rightarrow> error + ndarray"
  mm_jacobian :: "'i any_state \<Rightarrow> error + matrix"
  mm_covariance :: "'i any_state \<Rightarrow> error + matrix"

record 'i CompositeMeasurementModel =
  cmm_model :: "'i MeasurementModel"
  cmm_state_id :: "'i option"

definition CompositeMeasurementModel_evaluate ::
  "'i CompositeMeasurementModel \<Rightarrow> 'i CompositeState \<Rightarrow> error + ndarray" where
  "CompositeMeasurementModel_evaluate m x =
     ebind (get_state_by_id x (cmm_state_id m)) (mm_evaluate (cmm_model m))"

definition CompositeMeasurementModel_jacobian ::
  "'i CompositeMeasurementModel \<Rightarrow> 'i CompositeState \<Rightarrow> error + matrix" where
  "CompositeMeasurementModel_jacobian m x =
     ebind (get_state_by_id x (cmm_state_id m)) (\<lambda>x_sub.
       ebind (mm_jacobian (cmm_model m) x_sub) (\<lambda>jac_sub.
         let jac = zeros (nrows jac_sub) (composite_dof x) in
         ebind (get_slice_by_id x (cmm_state_id m)) (\<lambda>slc.
           set_columns jac slc jac_sub)))"

definition CompositeMeasurementModel_covariance ::
  "'i CompositeMeasurementModel \<Rightarrow> 'i CompositeState \<Rightarrow> error + matrix" where
  "CompositeMeasurementModel_covariance m x =
     ebind (get_state_by_id x (cmm_state_id m)) (mm_covariance (cmm_model m))"

section \<open>What the claims assume of the Lie group backend\<close>

text \<open>
  The group axioms on a set \<open>C\<close> of matrices with unit \<open>e\<close>, for the product \<open>@\<close> of
  numpy and the \<open>inverse\<close>, \<open>Exp\<close> and \<open>Log\<close> of the backend: any two elements have
  shapes that multiply and their product is in \<open>C\<close>, inverses are in \<open>C\<close> and cancel on
  both sides, \<open>e\<close> is neutral, the product is associative, and \<open>Exp\<close> undoes \<open>Log\<close>.
  \<open>is_zero\<close> says that every entry of a tangent vector is zero.
\<close>

definition group_laws :: "lie_group \<Rightarrow> matrix set \<Rightarrow> matrix \<Rightarrow> bool" where
  "group_laws G C e =
     (e \<in> C \<and>
      (\<forall>g\<in>C. \<forall>h\<in>C. ncols g = nrows h \<and> mat_prod g h \<in> C) \<and>
      (\<forall>g\<in>C. inverse_g G g \<in> C \<and>
                mat_prod (inverse_g G g) g = e \<and> mat_prod g (inverse_g G g) = e \<and>
                mat_prod e g = g \<and> mat_prod g e = g) \<and>
      (\<forall>f\<in>C. \<forall>g\<in>C. \<forall>h\<in>C. mat_prod (mat_prod f g) h = mat_prod f (mat_prod g h)) \<and>
      (\<forall>g\<in>C. Exp G (Log G g) = g))"

definition is_zero :: "ndarray \<Rightarrow> bool" where
  "is_zero d = list_all (\<lambda>a. a = 0) (flatten d)"

section \<open>Example objects\<close>

text \<open>A composite of three vector states of 2, 1 and 3 degrees of freedom; the first and
  the last carry the same identifier.\<close>

definition example_states :: "nat any_state list" where
  "example_states =
     [Vector (VectorState_init [1, 2] None (Some 7)),
      Vector (VectorState_init [3] (Some 0.5) (Some 8)),
      Vector (VectorState_init [4, 5, 6] None (Some 7))]"

definition example_composite :: "nat CompositeState" where
  "example_composite = CompositeState_init example_states None None"

text \<open>
  A small backend for the examples: the maps \<open>t \<mapsto> a t + b\<close> with \<open>a > 0\<close>, as the
  matrices \<open>[[a, b], [0, 1]]\<close>, with the chart \<open>(ln a, b)\<close> as \<open>Log\<close> and its inverse as
  \<open>Exp\<close>. The group is not commutative, so the left and the right perturbation differ.
  \<open>adjoint\<close>, \<open>left_jacobian\<close> and \<open>odot\<close> return fixed matrices of the right shape,
  and a one-dimensional array in place of a group element raises \<open>IndexError\<close>.
\<close>

definition affine :: "real \<Rightarrow> real \<Rightarrow> matrix" where
  "affine a b = Matrix 2 2 [[a, b], [0, 1]]"

definition example_group :: lie_group where
  "example_group =
     \<lparr>group_dof = 2,
      Exp = (\<lambda>d. affine (exp (flatten d ! 0)) (flatten d ! 1)),
      Log = (\<lambda>M. Array2 (column [ln (entry M 0 0), entry M 0 1])),
      inverse_g = (\<lambda>M. affine (1 / entry M 0 0) (- entry M 0 1 / entry M 0 0)),
      adjoint = (\<lambda>M. identity 2),
      left_jacobian = (\<lambda>d. identity 2),
      odot = (\<lambda>v. zeros 2 1),
      inverse_vec = (\<lambda>v. Inl IndexError),
      Log_vec = (\<lambda>v. Inl IndexError)\<rparr>"

definition example_pose :: "real \<Rightarrow> real \<Rightarrow> string \<Rightarrow> nat MatrixLieGroupState" where
  "example_pose a b d =
     \<lparr>value' = affine a b, dof = 2, stamp = None, state_id = Some 1,
      group = example_group, direction = d, cls = MatrixLieGroupStateC\<rparr>"

text \<open>A composite of three vector states of 1, 2 and 3 degrees of freedom with distinct
  identifiers, and a measurement model whose Jacobian is a fixed 2 by 2 matrix.\<close>

definition example_composite3 :: "nat CompositeState" where
  "example_composite3 =
     CompositeState_init
       [Vector (VectorState_init [1] None (Some 1)),
        Vector (VectorState_init [2, 3] None (Some 2)),
        Vector (VectorState_init [4, 5, 6] None (Some 3))] None None"

definition example_model :: "nat MeasurementModel" where
  "example_model =
     \<lparr>mm_evaluate = (\<lambda>s. Inr (Array1 [0, 0])),
      mm_jacobian = (\<lambda>s. Inr (Matrix 2 2 [[5, 6], [7, 8]])),
      mm_covariance = (\<lambda>s. Inr (identity 2))\<rparr>"

section \<open>Facts about list lookup and the slice table\<close>

lemma index_absent: "a \<notin> set xs \<Longrightarrow> index xs a = Inl ValueError"
  by (induction xs) (auto simp: ebind_def)

lemma index_present:
  "a \<in> set xs \<Longrightarrow>
   \<exists>i. index xs a = Inr i \<and> i < length xs \<and> xs ! i = a \<and> (\<forall>j<i. xs ! j \<noteq> a)"
proof (induction xs)
  case Nil
  then show ?case by simp
next
  case (Cons x xs)
  show ?case
  proof (cases "x = a")
    case True
    then show ?thesis by simp
  next
    case False
    with Cons.prems have "a \<in> set xs" by simp
    from Cons.IH [OF this] obtain i where
      i: "index xs a = Inr i" "i < length xs" "xs ! i = a" "\<forall>j<i. xs ! j \<noteq> a"
      by blast
    have "\<forall>j<Suc i. (x # xs) ! j \<noteq> a"
    proof (intro allI impI)
      fix j assume "j < Suc i"
      then show "(x # xs) ! j \<noteq> a"
        using False i(4) by (cases j) auto
    qed
    with False i show ?thesis
      by (auto simp: ebind_def)
  qed
qed

lemma slices_loop_length: "length (slices_loop ss k acc) = length acc + length ss"
  by (induction ss arbitrary: k acc) auto

lemma slices_loop_nth_acc:
  "i < length acc \<Longrightarrow> slices_loop ss k acc ! i = acc ! i"
  by (induction ss arbitrary: k acc) (auto simp: nth_append)

lemma slices_loop_nth:
  "i < length ss \<Longrightarrow>
   slices_loop ss k acc ! (length acc + i) =
     (k + sum_list (map dof_of (take i ss)),
      k + sum_list (map dof_of (take i ss)) + dof_of (ss ! i))"
proof (induction ss arbitrary: k acc i)
  case Nil
  then show ?case by simp
next
  case (Cons s ss)
  show ?case
  proof (cases i)
    case 0
    then show ?thesis
      by (simp add: slices_loop_nth_acc)
  next
    case (Suc n)
    with Cons.prems have n: "n < length ss" by simp
    have "slices_loop ss (k + dof_of s) (acc @ [(k, k + dof_of s)]) !
            (length (acc @ [(k, k + dof_of s)]) + n) =
          (k + dof_of s + sum_list (map dof_of (take n ss)),
           k + dof_of s + sum_list (map dof_of (take n ss)) + dof_of (ss ! n))"
      by (rule Cons.IH [OF n])
    with Suc show ?thesis
      by (simp add: add.assoc)
  qed
qed

lemma sum_take_mono:
  "i \<le> j \<Longrightarrow> sum_list (take i ds) \<le> sum_list (take j (ds::nat list))"
proof -
  assume "i \<le> j"
  then obtain d where j: "j = i + d" using le_Suc_ex by blast
  show ?thesis unfolding j by (simp add: take_add)
qed

lemma sum_take_Suc:
  "i < length ds \<Longrightarrow> sum_list (take (Suc i) ds) = sum_list (take i ds) + (ds ! i :: nat)"
  by (simp add: take_Suc_conv_app_nth)

lemma union_ranges:
  "(\<Union>i<n. {sum_list (take i ds) ..< sum_list (take (Suc i) ds)}) = {0 ..< sum_list (take n (ds::nat list))}"
proof (induction n)
  case 0
  then show ?case by simp
next
  case (Suc n)
  have "sum_list (take n ds) \<le> sum_list (take (Suc n) ds)"
    by (rule sum_take_mono) simp
  then have "{0 ..< sum_list (take n ds)} \<union> {sum_list (take n ds) ..< sum_list (take (Suc n) ds)}
     = {0 ..< sum_list (take (Suc n) ds)}"
    by (simp add: ivl_disj_un)
  with Suc show ?case
    by (simp add: lessThan_Suc Un_commute)
qed

lemma slices_init_nth:
  "i < length sl \<Longrightarrow>
   slices (CompositeState_init sl st sid) ! i =
     (sum_list (map dof_of (take i sl)), sum_list (map dof_of (take i sl)) + dof_of (sl ! i))"
  using slices_loop_nth [of i sl 0 "[]"] by (simp add: CompositeState_init_def)

lemma slices_init_length: "length (slices (CompositeState_init sl st sid)) = length sl"
  by (simp add: CompositeState_init_def slices_loop_length)

lemma slices_init_nth':
  "i < length sl \<Longrightarrow>
   slices (CompositeState_init sl st sid) ! i =
     (sum_list (take i (map dof_of sl)), sum_list (take (Suc i) (map dof_of sl)))"
  by (simp add: slices_init_nth take_map take_Suc_conv_app_nth)

lemma union_pairs_nth:
  "(\<Union>(a, b)\<in>set xs. {a..<b::nat}) = (\<Union>i<length xs. {fst (xs ! i)..<snd (xs ! i)})"
proof -
  have "set xs = (\<lambda>i. xs ! i) ` {..<length xs}"
    by (auto simp: set_conv_nth)
  then have "(\<Union>(a, b)\<in>set xs. {a..<b}) = (\<Union>p\<in>(\<lambda>i. xs ! i) ` {..<length xs}. case p of (a, b) \<Rightarrow> {a..<b})"
    by simp
  also have "\<dots> = (\<Union>i<length xs. {fst (xs ! i)..<snd (xs ! i)})"
    by (simp add: case_prod_beta)
  finally show ?thesis .
qed

lemma slices_init_union:
  "(\<Union>(a, b)\<in>set (slices (CompositeState_init sl st sid)). {a..<b}) =
     {0..<composite_dof (CompositeState_init sl st sid)}"
proof -
  let ?c = "CompositeState_init sl st sid"
  let ?ds = "map dof_of sl"
  have "(\<Union>(a, b)\<in>set (slices ?c). {a..<b}) =
        (\<Union>i<length sl. {fst (slices ?c ! i) ..< snd (slices ?c ! i)})"
    by (simp add: union_pairs_nth slices_init_length)
  also have "\<dots> = (\<Union>i<length sl. {sum_list (take i ?ds) ..< sum_list (take (Suc i) ?ds)})"
    by (simp add: slices_init_nth')
  also have "\<dots> = {0 ..< sum_list (take (length sl) ?ds)}"
    by (rule union_ranges)
  finally show ?thesis
    by (simp add: composite_dof_def CompositeState_init_def)
qed

lemma slices_init_disjoint:
  assumes "i < j" "j < length sl"
  shows "snd (slices (CompositeState_init sl st sid) ! i) \<le> fst (slices (CompositeState_init sl st sid) ! j)"
proof -
  have "sum_list (take (Suc i) (map dof_of sl)) \<le> sum_list (take j (map dof_of sl))"
    by (rule sum_take_mono) (use assms in simp)
  with assms show ?thesis
    by (simp add: slices_init_nth')
qed

text \<open>
  Claim C5. The slice table built by the constructor has one slice per sub-state; the
  \<open>i\<close>-th slice starts at the sum of the degrees of freedom of the sub-states before it
  and is \<open>dof\<^sub>i\<close> long; the composite \<open>dof\<close> is the sum of the sub-states' \<open>dof\<close>;
  the slices cover exactly \<open>[0, dof)\<close>, and an earlier slice ends at or before the
  start of every later one (no gap, no overlap, list order).
\<close>

theorem C5_slices_partition:
  "length (slices (CompositeState_init sl st sid)) = length sl \<and>
   (\<forall>i<length sl.
      slices (CompositeState_init sl st sid) ! i =
        (sum_list (map dof_of (take i sl)),
         sum_list (map dof_of (take i sl)) + dof_of (sl ! i))) \<and>
   composite_dof (CompositeState_init sl st sid) = sum_list (map dof_of sl) \<and>
   (\<Union>(a, b)\<in>set (slices (CompositeState_init sl st sid)). {a..<b}) =
     {0..<composite_dof (CompositeState_init sl st sid)} \<and>
   (\<forall>i j. i < j \<and> j < length sl \<longrightarrow>
      snd (slices (CompositeState_init sl st sid) ! i)
        \<le> fst (slices (CompositeState_init sl st sid) ! j))"
proof (intro conjI allI impI)
  show "length (slices (CompositeState_init sl st sid)) = length sl"
    by (rule slices_init_length)
  show "composite_dof (CompositeState_init sl st sid) = sum_list (map dof_of sl)"
    by (simp add: composite_dof_def CompositeState_init_def)
  show "(\<Union>(a, b)\<in>set (slices (CompositeState_init sl st sid)). {a..<b}) =
     {0..<composite_dof (CompositeState_init sl st sid)}"
    by (rule slices_init_union)
next
  fix i assume "i < length sl"
  then show "slices (CompositeState_init sl st sid) ! i =
        (sum_list (map dof_of (take i sl)),
         sum_list (map dof_of (take i sl)) + dof_of (sl ! i))"
    by (rule slices_init_nth)
next
  fix i j assume "i < j \<and> j < length sl"
  then show "snd (slices (CompositeState_init sl st sid) ! i)
        \<le> fst (slices (CompositeState_init sl st sid) ! j)"
    by (simp add: slices_init_disjoint)
qed

section \<open>Lookup by identifier\<close>

lemma getitem_in_range: "i < length xs \<Longrightarrow> getitem xs i = Inr (xs ! i)"
  by (simp add: getitem_def)

lemma get_index_by_id_present:
  assumes "sid \<in> set (map state_id_of (substates c))"
  shows "\<exists>idx. get_index_by_id c sid = Inr idx \<and> idx < length (substates c) \<and>
           state_id_of (substates c ! idx) = sid \<and>
           (\<forall>j<idx. state_id_of (substates c ! j) \<noteq> sid)"
proof -
  from index_present [OF assms] obtain i where
    i: "index (map state_id_of (substates c)) sid = Inr i"
       "i < length (map state_id_of (substates c))"
       "map state_id_of (substates c) ! i = sid"
       "\<forall>j<i. map state_id_of (substates c) ! j \<noteq> sid"
    by blast
  then have "\<forall>j<i. state_id_of (substates c ! j) \<noteq> sid"
    by auto
  with i show ?thesis
    by (auto simp: get_index_by_id_def)
qed

text \<open>
  Claim C6. When no sub-state carries the identifier, \<open>get_index_by_id\<close>,
  \<open>get_slice_by_id\<close> and \<open>get_state_by_id\<close> all raise (the \<open>ValueError\<close> of
  \<open>list.index\<close>). When some sub-state carries it, in a composite whose slice table
  has one entry per sub-state, they return the index of the first sub-state with that
  identifier, the slice at that index and the sub-state at that index. The three
  functions assign to nothing: they take the composite and return only the result.
\<close>

theorem C6_lookup_by_id:
  "(sid \<notin> set (map state_id_of (substates c)) \<longrightarrow>
      get_index_by_id c sid = Inl ValueError \<and>
      get_slice_by_id c sid = Inl ValueError \<and>
      get_state_by_id c sid = Inl ValueError) \<and>
   (sid \<in> set (map state_id_of (substates c)) \<and> length (slices c) = length (substates c) \<longrightarrow>
      (\<exists>idx. idx < length (substates c) \<and>
         state_id_of (substates c ! idx) = sid \<and>
         (\<forall>j<idx. state_id_of (substates c ! j) \<noteq> sid) \<and>
         get_index_by_id c sid = Inr idx \<and>
         get_slice_by_id c sid = Inr (slices c ! idx) \<and>
         get_state_by_id c sid = Inr (substates c ! idx)))"
proof (intro conjI impI)
  assume absent: "sid \<notin> set (map state_id_of (substates c))"
  then have idx: "get_index_by_id c sid = Inl ValueError"
    unfolding get_index_by_id_def by (rule index_absent)
  then show "get_index_by_id c sid = Inl ValueError" .
  from idx show "get_slice_by_id c sid = Inl ValueError"
    by (simp add: get_slice_by_id_def ebind_def)
  from idx show "get_state_by_id c sid = Inl ValueError"
    by (simp add: get_state_by_id_def ebind_def)
next
  assume "sid \<in> set (map state_id_of (substates c)) \<and> length (slices c) = length (substates c)"
  then have present: "sid \<in> set (map state_id_of (substates c))"
    and len: "length (slices c) = length (substates c)"
    by simp_all
  from get_index_by_id_present [OF present] obtain idx where
    idx: "get_index_by_id c sid = Inr idx" "idx < length (substates c)"
         "state_id_of (substates c ! idx) = sid"
         "\<forall>j<idx. state_id_of (substates c ! j) \<noteq> sid"
    by blast
  have "get_slice_by_id c sid = Inr (slices c ! idx)"
    using idx(1,2) len by (simp add: get_slice_by_id_def ebind_def getitem_in_range)
  moreover have "get_state_by_id c sid = Inr (substates c ! idx)"
    using idx(1,2) by (simp add: get_state_by_id_def ebind_def getitem_in_range)
  ultimately show "\<exists>idx. idx < length (substates c) \<and>
         state_id_of (substates c ! idx) = sid \<and>
         (\<forall>j<idx. state_id_of (substates c ! j) \<noteq> sid) \<and>
         get_index_by_id c sid = Inr idx \<and>
         get_slice_by_id c sid = Inr (slices c ! idx) \<and>
         get_state_by_id c sid = Inr (substates c ! idx)"
    using idx by blast
qed

text \<open>
  Claim C9. For an identifier that a sub-state carries, \<open>get_dof_by_id\<close> and
  \<open>get_stamp_by_id\<close> never return: after finding the index they subscript the
  sub-state's \<open>dof\<close> (an integer) and \<open>stamp\<close> (a float or \<open>None\<close>) with it,
  which raises \<open>TypeError\<close>.
\<close>

theorem C9_get_dof_stamp_by_id_raise:
  "sid \<in> set (map state_id_of (substates c)) \<Longrightarrow>
   get_dof_by_id c sid = Inl TypeError \<and> get_stamp_by_id c sid = Inl TypeError"
proof -
  assume "sid \<in> set (map state_id_of (substates c))"
  from get_index_by_id_present [OF this] obtain idx where
    idx: "get_index_by_id c sid = Inr idx" "idx < length (substates c)"
    by blast
  have "subscript (stamp_obj (substates c ! idx)) idx = (Inl TypeError :: error + real)"
    by (simp add: stamp_obj_def split: option.splits)
  moreover have "subscript (dof_obj (substates c ! idx)) idx = (Inl TypeError :: error + real)"
    by (simp add: dof_obj_def)
  ultimately show ?thesis
    using idx by (simp add: get_dof_by_id_def get_stamp_by_id_def ebind_def getitem_in_range)
qed

lemma example_slices: "slices example_composite = [(0, 2), (2, 3), (3, 6)]"
  by (simp add: example_composite_def example_states_def CompositeState_init_def VectorState_init_def)

theorem C5_slices_partition_witness:
  "slices example_composite ! 1 = (2, 3) \<and> composite_dof example_composite = 6 \<and>
   length (slices example_composite) = 3"
  using C5_slices_partition [of example_states None None]
  by (simp add: example_composite_def example_states_def VectorState_init_def)

theorem C6_lookup_by_id_witness:
  "get_index_by_id example_composite (Some 9) = Inl ValueError \<and>
   get_index_by_id example_composite (Some 7) = Inr 0 \<and>
   get_slice_by_id example_composite (Some 7) = Inr (0, 2) \<and>
   get_state_by_id example_composite (Some 7) = Inr (Vector (VectorState_init [1, 2] None (Some 7)))"
  using C6_lookup_by_id [of "Some 9" example_composite] C6_lookup_by_id [of "Some 7" example_composite]
  by (simp add: example_composite_def example_states_def CompositeState_init_def VectorState_init_def
      get_index_by_id_def get_slice_by_id_def get_state_by_id_def ebind_def getitem_def)

theorem C9_get_dof_stamp_by_id_raise_witness:
  "get_dof_by_id example_composite (Some 8) = Inl TypeError \<and>
   get_stamp_by_id example_composite (Some 8) = Inl TypeError"
  using C9_get_dof_stamp_by_id_raise [of "Some 8" example_composite]
  by (simp add: example_composite_def example_states_def CompositeState_init_def VectorState_init_def)

section \<open>Round trip of plus and minus on a composite state\<close>

lemma example_plus:
  "CompositeState_plus example_composite (Array1 [1/2, 1/4, 1/8, 1, 2, 3]) None =
     Inr (example_composite\<lparr>substates :=
       [Vector (VectorState_init [3/2, 9/4] None (Some 7)),
        Vector (VectorState_init [25/8] (Some 0.5) (Some 8)),
        Vector (VectorState_init [5, 7, 9] None (Some 7))]\<rparr>)"
  by (simp add: CompositeState_plus_def example_composite_def example_states_def
      CompositeState_init_def VectorState_init_def ebind_def getitem_def
      VectorState_plus_def np_add_def broadcast1_def)

text \<open>
  Claim C4. The round trip \<open>minus\<close> after \<open>plus\<close> is claimed to give back \<open>dx\<close> for
  every composite of heterogeneous sub-states. On the composite of three vector states
  of 2, 1 and 3 degrees of freedom \<open>plus\<close> succeeds, but \<open>minus\<close> against the original
  raises: every \<open>VectorState.minus\<close> returns a one-dimensional array, \<open>np.vstack\<close>
  makes each a row, and rows of 2, 1 and 3 entries do not stack.
\<close>

theorem C4_composite_minus_raises:
  "\<exists>c'. CompositeState_plus example_composite (Array1 [1/2, 1/4, 1/8, 1, 2, 3]) None = Inr c' \<and>
        CompositeState_minus c' example_composite = Inl ValueError"
  unfolding example_plus
  by (simp add: CompositeState_minus_def example_composite_def example_states_def
      CompositeState_init_def VectorState_init_def ebind_def getitem_def
      VectorState_minus_def np_sub_def broadcast1_def vstack_def)

section \<open>Single integrator\<close>

lemma np_add_same_length:
  "length xs = length ys \<Longrightarrow> np_add xs ys = Inr (map2 (+) xs ys)"
  by (simp add: np_add_def broadcast1_def)

text \<open>
  Claim C8. For a \<open>SingleIntegrator\<close> built from \<open>Q\<close>, a vector state \<open>x\<close> and an input
  of the same length, \<open>evaluate\<close> returns \<open>x\<close> with the value \<open>x + dt u\<close> (every other
  field as it was), \<open>jacobian\<close> is the identity of size \<open>Q.shape[0]\<close> and \<open>covariance\<close>
  is \<open>dt\<^sup>2 Q\<close>. The witness is the scenario \<open>Q = I\<^sub>2\<close>, \<open>x = [0, 0]\<close>, \<open>u = [1, 0]\<close>,
  \<open>dt = 0.5\<close>, whose numbers are exact in binary floating point.
\<close>

theorem C8_single_integrator:
  assumes "SingleIntegrator_init Q = Inr m" and "length (uvalue u) = length (value' x)"
  shows "SingleIntegrator_evaluate m x u dt =
           Inr (x\<lparr>value' := map2 (\<lambda>a b. a + dt * b) (value' x) (uvalue u)\<rparr>) \<and>
         SingleIntegrator_jacobian m x u dt = identity (nrows Q) \<and>
         SingleIntegrator_covariance m x u dt = mat_scale (dt\<^sup>2) Q"
proof -
  from assms(1) have m: "m = \<lparr>si_Q = Q, dim = nrows Q\<rparr>"
    by (simp add: SingleIntegrator_init_def split: if_splits)
  have "map2 (+) (value' x) (smul dt (uvalue u)) =
        map2 (\<lambda>a b. a + dt * b) (value' x) (uvalue u)"
    by (simp add: smul_def zip_map2 case_prod_beta)
  with assms(2) have "SingleIntegrator_evaluate m x u dt =
      Inr (x\<lparr>value' := map2 (\<lambda>a b. a + dt * b) (value' x) (uvalue u)\<rparr>)"
    by (simp add: SingleIntegrator_evaluate_def np_add_same_length smul_def ebind_def)
  then show ?thesis
    by (simp add: m SingleIntegrator_jacobian_def SingleIntegrator_covariance_def)
qed

lemma identity_2: "identity 2 = Matrix 2 2 [[1, 0], [0, 1]]"
  by (simp add: identity_def upt_rec)

theorem C8_single_integrator_witness:
  "SingleIntegrator_init (identity 2) = Inr \<lparr>si_Q = identity 2, dim = 2\<rparr> \<and>
   SingleIntegrator_evaluate \<lparr>si_Q = identity 2, dim = 2\<rparr>
       (VectorState_init [0, 0] None (None :: nat option)) \<lparr>uvalue = [1, 0], ustamp = None\<rparr> (1/2) =
     Inr (VectorState_init [1/2, 0] None None) \<and>
   SingleIntegrator_jacobian \<lparr>si_Q = identity 2, dim = 2\<rparr>
       (VectorState_init [0, 0] None (None :: nat option)) \<lparr>uvalue = [1, 0], ustamp = None\<rparr> (1/2) =
     Matrix 2 2 [[1, 0], [0, 1]] \<and>
   SingleIntegrator_covariance \<lparr>si_Q = identity 2, dim = 2\<rparr>
       (VectorState_init [0, 0] None (None :: nat option)) \<lparr>uvalue = [1, 0], ustamp = None\<rparr> (1/2) =
     Matrix 2 2 [[1/4, 0], [0, 1/4]]"
proof -
  have init: "SingleIntegrator_init (identity 2) = Inr \<lparr>si_Q = identity 2, dim = 2\<rparr>"
    by (simp add: SingleIntegrator_init_def identity_def)
  have len: "length (uvalue \<lparr>uvalue = [1, 0], ustamp = None\<rparr>) =
             length (value' (VectorState_init [0, 0] None (None :: nat option)))"
    by (simp add: VectorState_init_def)
  show ?thesis
    using C8_single_integrator [OF init len, of "1/2"] init
    by (simp add: VectorState_init_def identity_2 mat_scale_def power2_eq_square)
qed

section \<open>Process and measurement models on a left-perturbed state\<close>

lemma reshape2_even:
  "even (length v) \<Longrightarrow>
   reshape2 v = Inr (take (length v div 2) v, drop (length v div 2) v)"
  by (auto simp: reshape2_def round_half_def Let_def)

lemma reshape2_odd: "odd (length v) \<Longrightarrow> reshape2 v = Inl ValueError"
proof -
  assume o: "odd (length v)"
  have "2 * (length v div 2) \<noteq> length v" "2 * (length v div 2 + 1) \<noteq> length v"
    using o by presburger+
  then show ?thesis
    using o by (simp add: reshape2_def round_half_def Let_def)
qed

text \<open>
  The reshape of \<open>RelativeBodyFrameVelocity\<close> comes before the direction is read, so an
  input that does not pack two twists (an odd number of entries) raises its \<open>ValueError\<close>
  on a state of any direction.
\<close>

lemma relative_odd_input_raises:
  assumes "odd (length (uvalue u))"
  shows "RelativeBodyFrameVelocity_jacobian m x u dt = Inl ValueError"
    and "RelativeBodyFrameVelocity_covariance m x u dt = Inl ValueError"
    and "RelativeBodyFrameVelocity_evaluate m x u dt = Inl ValueError"
  by (simp_all add: RelativeBodyFrameVelocity_jacobian_def RelativeBodyFrameVelocity_covariance_def
      RelativeBodyFrameVelocity_evaluate_def reshape2_odd [OF assms] ebind_def)

text \<open>
  Claim C7. On a state whose direction is \<open>left\<close>, the Jacobian and the covariance of
  \<open>BodyFrameVelocity\<close> and of \<open>RelativeBodyFrameVelocity\<close>, and the Jacobian of
  \<open>RangePoseToAnchor\<close>, raise \<open>NotImplementedError\<close> and return no matrix. The input of
  \<open>RelativeBodyFrameVelocity\<close> packs two twists of equal length, so it has an even number
  of entries.
\<close>

theorem C7_left_direction_not_implemented:
  assumes "direction x = ''left''" and "even (length (uvalue u'))"
  shows "BodyFrameVelocity_jacobian m x u dt = Inl NotImplementedError \<and>
         BodyFrameVelocity_covariance m x u dt = Inl NotImplementedError \<and>
         RangePoseToAnchor_jacobian SO2 SO3 r x = Inl NotImplementedError \<and>
         RelativeBodyFrameVelocity_jacobian m' x u' dt = Inl NotImplementedError \<and>
         RelativeBodyFrameVelocity_covariance m' x u' dt = Inl NotImplementedError"
proof (intro conjI)
  show "BodyFrameVelocity_jacobian m x u dt = Inl NotImplementedError"
    using assms(1) by (simp add: BodyFrameVelocity_jacobian_def)
  show "BodyFrameVelocity_covariance m x u dt = Inl NotImplementedError"
    using assms(1) by (simp add: BodyFrameVelocity_covariance_def)
  show "RangePoseToAnchor_jacobian SO2 SO3 r x = Inl NotImplementedError"
    using assms(1) by (simp add: RangePoseToAnchor_jacobian_def)
  show "RelativeBodyFrameVelocity_jacobian m' x u' dt = Inl NotImplementedError"
    using assms(1)
    by (simp add: RelativeBodyFrameVelocity_jacobian_def reshape2_even [OF assms(2)] ebind_def)
  show "RelativeBodyFrameVelocity_covariance m' x u' dt = Inl NotImplementedError"
    using assms(1)
    by (simp add: RelativeBodyFrameVelocity_covariance_def reshape2_even [OF assms(2)] ebind_def)
qed

theorem C7_left_direction_not_implemented_witness:
  "direction (example_pose 2 3 ''left'') = ''left'' \<and>
   even (length (uvalue \<lparr>uvalue = [1, 2, 3, 4], ustamp = None\<rparr>)) \<and>
   BodyFrameVelocity_jacobian \<lparr>bfv_Q = identity 2\<rparr> (example_pose 2 3 ''left'')
     \<lparr>uvalue = [1, 2], ustamp = None\<rparr> (1/10) = Inl NotImplementedError \<and>
   BodyFrameVelocity_covariance \<lparr>bfv_Q = identity 2\<rparr> (example_pose 2 3 ''left'')
     \<lparr>uvalue = [1, 2], ustamp = None\<rparr> (1/10) = Inl NotImplementedError \<and>
   RangePoseToAnchor_jacobian example_group example_group
     \<lparr>r_cw_a = [1, 2], r_tz_b = [0, 1], rpa_R = 1\<rparr> (example_pose 2 3 ''left'') =
     Inl NotImplementedError \<and>
   RelativeBodyFrameVelocity_jacobian \<lparr>rbfv_Q1 = identity 2, rbfv_Q2 = identity 2\<rparr>
     (example_pose 2 3 ''left'') \<lparr>uvalue = [1, 2, 3, 4], ustamp = None\<rparr> (1/10) =
     Inl NotImplementedError \<and>
   RelativeBodyFrameVelocity_covariance \<lparr>rbfv_Q1 = identity 2, rbfv_Q2 = identity 2\<rparr>
     (example_pose 2 3 ''left'') \<lparr>uvalue = [1, 2, 3, 4], ustamp = None\<rparr> (1/10) =
     Inl NotImplementedError"
proof -
  have d: "direction (example_pose 2 3 ''left'') = ''left''"
    by (simp add: example_pose_def)
  have e: "even (length (uvalue \<lparr>uvalue = [1, 2, 3, 4], ustamp = None\<rparr>))"
    by simp
  show ?thesis
    using d e
      C7_left_direction_not_implemented [OF d e, of "\<lparr>bfv_Q = identity 2\<rparr>"
        "\<lparr>uvalue = [1, 2], ustamp = None\<rparr>" "1/10" example_group example_group
        "\<lparr>r_cw_a = [1, 2], r_tz_b = [0, 1], rpa_R = 1\<rparr>"
        "\<lparr>rbfv_Q1 = identity 2, rbfv_Q2 = identity 2\<rparr>"]
    by simp
qed

section \<open>Body-frame velocity on any direction\<close>

text \<open>
  Claim C10. \<open>BodyFrameVelocity.evaluate\<close> does not read the direction. Whenever the
  value and \<open>Exp(u dt)\<close> have shapes that multiply, it returns the state it was given
  with the value replaced by \<open>value @ Exp(u dt)\<close> (the in-place update, every other
  field unchanged), also for a state whose direction is \<open>left\<close>; on such a state
  \<open>jacobian\<close> and \<open>covariance\<close> raise \<open>NotImplementedError\<close>, while on a \<open>right\<close>
  state neither raises it.
\<close>

theorem C10_evaluate_direction_independent:
  assumes "ncols (value' x) = nrows (Exp (group x) (Array1 (muls (uvalue u) dt)))"
  shows "BodyFrameVelocity_evaluate m (x\<lparr>direction := d\<rparr>) u dt =
           Inr (x\<lparr>direction := d,
                  value' := mat_prod (value' x) (Exp (group x) (Array1 (muls (uvalue u) dt)))\<rparr>) \<and>
         BodyFrameVelocity_jacobian m (x\<lparr>direction := ''left''\<rparr>) u dt = Inl NotImplementedError \<and>
         BodyFrameVelocity_covariance m (x\<lparr>direction := ''left''\<rparr>) u dt = Inl NotImplementedError \<and>
         BodyFrameVelocity_jacobian m (x\<lparr>direction := ''right''\<rparr>) u dt \<noteq> Inl NotImplementedError \<and>
         BodyFrameVelocity_covariance m (x\<lparr>direction := ''right''\<rparr>) u dt \<noteq> Inl NotImplementedError"
proof (intro conjI)
  show "BodyFrameVelocity_evaluate m (x\<lparr>direction := d\<rparr>) u dt =
           Inr (x\<lparr>direction := d,
                  value' := mat_prod (value' x) (Exp (group x) (Array1 (muls (uvalue u) dt)))\<rparr>)"
    using assms by (simp add: BodyFrameVelocity_evaluate_def matmul_def ebind_def)
  show "BodyFrameVelocity_jacobian m (x\<lparr>direction := ''left''\<rparr>) u dt = Inl NotImplementedError"
    by (simp add: BodyFrameVelocity_jacobian_def)
  show "BodyFrameVelocity_covariance m (x\<lparr>direction := ''left''\<rparr>) u dt = Inl NotImplementedError"
    by (simp add: BodyFrameVelocity_covariance_def)
  show "BodyFrameVelocity_jacobian m (x\<lparr>direction := ''right''\<rparr>) u dt \<noteq> Inl NotImplementedError"
    by (simp add: BodyFrameVelocity_jacobian_def)
  show "BodyFrameVelocity_covariance m (x\<lparr>direction := ''right''\<rparr>) u dt \<noteq> Inl NotImplementedError"
    by (simp add: BodyFrameVelocity_covariance_def matmul_def ebind_def Let_def split: sum.splits)
qed

theorem C10_evaluate_direction_independent_witness:
  "BodyFrameVelocity_evaluate \<lparr>bfv_Q = identity 2\<rparr> (example_pose 2 3 ''left'')
     \<lparr>uvalue = [0, 10], ustamp = None\<rparr> (1/2) = Inr (example_pose 2 13 ''left'') \<and>
   BodyFrameVelocity_jacobian \<lparr>bfv_Q = identity 2\<rparr> (example_pose 2 3 ''left'')
     \<lparr>uvalue = [0, 10], ustamp = None\<rparr> (1/2) = Inl NotImplementedError"
proof -
  have shape: "ncols (value' (example_pose 2 3 ''right'')) =
      nrows (Exp (group (example_pose 2 3 ''right''))
        (Array1 (muls (uvalue \<lparr>uvalue = [0, 10], ustamp = None\<rparr>) (1/2))))"
    by (simp add: example_pose_def example_group_def affine_def muls_def)
  show ?thesis
    using C10_evaluate_direction_independent [OF shape, of "\<lparr>bfv_Q = identity 2\<rparr>" "''left''"]
    by (simp add: example_pose_def example_group_def affine_def muls_def mat_prod_def dot_def
        col_def upt_rec)
qed

section \<open>Plus and minus of a single state\<close>

lemma np_sub_same_length:
  "length xs = length ys \<Longrightarrow> np_sub xs ys = Inr (map2 (-) xs ys)"
  by (simp add: np_sub_def broadcast1_def)

lemma map2_add_sub: "length xs = length ys \<Longrightarrow> map2 (+) ys (map2 (-) xs ys) = (xs :: real list)"
  by (induction xs ys rule: list_induct2) auto

lemma map2_sub_self: "map2 (-) xs xs = replicate (length xs) (0 :: real)"
  by (induction xs) auto

lemma vector_round_trip:
  assumes "length (value' x) = length (value' y)"
  shows "VectorState_minus x y = Inr (Array1 (map2 (-) (value' x) (value' y))) \<and>
         VectorState_plus y (Array1 (map2 (-) (value' x) (value' y))) = Inr (y\<lparr>value' := value' x\<rparr>)"
  using assms
  by (simp add: VectorState_minus_def VectorState_plus_def np_sub_same_length
      np_add_same_length map2_add_sub ebind_def)

lemma vector_minus_self:
  "VectorState_minus x x = Inr (Array1 (replicate (length (value' x)) 0))"
  by (simp add: VectorState_minus_def np_sub_same_length map2_sub_self ebind_def)

lemma lie_round_trip:
  assumes laws: "group_laws (group a) C e"
    and a: "value' a \<in> C" and b: "value' b \<in> C"
    and same: "group b = group a" "direction b = direction a"
    and dir: "direction a = ''right'' \<or> direction a = ''left''"
  shows "\<exists>d. MatrixLieGroupState_minus a b = Inr d \<and>
             MatrixLieGroupState_plus b d = Inr (b\<lparr>value' := value' a\<rparr>)"
proof -
  let ?G = "group a"
  let ?x = "value' a" and ?y = "value' b"
  let ?yi = "inverse_g ?G ?y"
  have mul: "\<And>g h. g \<in> C \<Longrightarrow> h \<in> C \<Longrightarrow> ncols g = nrows h \<and> mat_prod g h \<in> C"
    and inv: "\<And>g. g \<in> C \<Longrightarrow> inverse_g ?G g \<in> C \<and>
                mat_prod (inverse_g ?G g) g = e \<and> mat_prod g (inverse_g ?G g) = e \<and>
                mat_prod e g = g \<and> mat_prod g e = g"
    and assoc: "\<And>f g h. f \<in> C \<Longrightarrow> g \<in> C \<Longrightarrow> h \<in> C \<Longrightarrow>
                mat_prod (mat_prod f g) h = mat_prod f (mat_prod g h)"
    and explog: "\<And>g. g \<in> C \<Longrightarrow> Exp ?G (Log ?G g) = g"
    using laws unfolding group_laws_def by blast+
  have yi: "?yi \<in> C" using inv [OF b] by simp
  from dir show ?thesis
  proof
    assume r: "direction a = ''right''"
    let ?p = "mat_prod ?yi ?x"
    have p: "?p \<in> C" and shp: "ncols ?yi = nrows ?x"
      using mul [OF yi a] by simp_all
    have minus: "MatrixLieGroupState_minus a b = Inr (Log ?G ?p)"
      using r shp by (simp add: MatrixLieGroupState_minus_def matmul_def ebind_def)
    have shp2: "ncols ?y = nrows ?p" using mul [OF b p] by simp
    have "mat_prod ?y ?p = mat_prod (mat_prod ?y ?yi) ?x"
      using assoc [OF b yi a] by simp
    also have "\<dots> = ?x" using inv [OF b] inv [OF a] by simp
    finally have rt: "mat_prod ?y ?p = ?x" .
    have "MatrixLieGroupState_plus b (Log ?G ?p) = Inr (b\<lparr>value' := ?x\<rparr>)"
      using r same shp2 rt explog [OF p]
      by (simp add: MatrixLieGroupState_plus_def matmul_def ebind_def)
    with minus show ?thesis by blast
  next
    assume l: "direction a = ''left''"
    let ?p = "mat_prod ?x ?yi"
    have p: "?p \<in> C" and shp: "ncols ?x = nrows ?yi"
      using mul [OF a yi] by simp_all
    have minus: "MatrixLieGroupState_minus a b = Inr (Log ?G ?p)"
      using l shp by (simp add: MatrixLieGroupState_minus_def matmul_def ebind_def)
    have shp2: "ncols ?p = nrows ?y" using mul [OF p b] by simp
    have "mat_prod ?p ?y = mat_prod ?x (mat_prod ?yi ?y)"
      using assoc [OF a yi b] by simp
    also have "\<dots> = ?x" using inv [OF b] inv [OF a] by simp
    finally have rt: "mat_prod ?p ?y = ?x" .
    have "MatrixLieGroupState_plus b (Log ?G ?p) = Inr (b\<lparr>value' := ?x\<rparr>)"
      using l same shp2 rt explog [OF p]
      by (simp add: MatrixLieGroupState_plus_def matmul_def ebind_def)
    with minus show ?thesis by blast
  qed
qed

lemma lie_minus_self:
  assumes laws: "group_laws (group a) C e"
    and a: "value' a \<in> C"
    and dir: "direction a = ''right'' \<or> direction a = ''left''"
  shows "MatrixLieGroupState_minus a a = Inr (Log (group a) e)"
proof -
  let ?G = "group a"
  let ?x = "value' a"
  have mul: "\<And>g h. g \<in> C \<Longrightarrow> h \<in> C \<Longrightarrow> ncols g = nrows h \<and> mat_prod g h \<in> C"
    and inv: "\<And>g. g \<in> C \<Longrightarrow> inverse_g ?G g \<in> C \<and>
                mat_prod (inverse_g ?G g) g = e \<and> mat_prod g (inverse_g ?G g) = e \<and>
                mat_prod e g = g \<and> mat_prod g e = g"
    using laws unfolding group_laws_def by blast+
  have xi: "inverse_g ?G ?x \<in> C" using inv [OF a] by simp
  have "ncols (inverse_g ?G ?x) = nrows ?x" "ncols ?x = nrows (inverse_g ?G ?x)"
    using mul [OF xi a] mul [OF a xi] by simp_all
  with dir inv [OF a] show ?thesis
    by (auto simp: MatrixLieGroupState_minus_def matmul_def ebind_def)
qed

text \<open>
  Claim C3. \<open>minus\<close> is a left inverse of \<open>plus\<close>, and \<open>minus\<close> of a state against
  itself is the zero tangent vector. For two vector states of the same length,
  \<open>y.plus(x.minus(y))\<close> gives \<open>y\<close> the value of \<open>x\<close>, and \<open>x.minus(x)\<close> is the zero
  vector. For two matrix Lie group states of the same group and direction (\<open>right\<close> or
  \<open>left\<close>) whose values lie in a set on which the backend satisfies the group axioms,
  \<open>b.plus(a.minus(b))\<close> gives \<open>b\<close> the value of \<open>a\<close>, and \<open>a.minus(a)\<close> is \<open>Log\<close> of
  the unit, which is zero when the backend's \<open>Log\<close> maps the unit to zero. Arithmetic is
  exact (over the reals).
\<close>

theorem C3_minus_left_inverse_of_plus:
  "(length (value' x) = length (value' y) \<longrightarrow>
      (\<exists>d. VectorState_minus x y = Inr d \<and>
           VectorState_plus y d = Inr (y\<lparr>value' := value' x\<rparr>))) \<and>
   (\<exists>d. VectorState_minus x x = Inr d \<and> is_zero d) \<and>
   (group_laws (group a) C e \<and> value' a \<in> C \<and> value' b \<in> C \<and>
    group b = group a \<and> direction b = direction a \<and>
    (direction a = ''right'' \<or> direction a = ''left'') \<longrightarrow>
      (\<exists>d. MatrixLieGroupState_minus a b = Inr d \<and>
           MatrixLieGroupState_plus b d = Inr (b\<lparr>value' := value' a\<rparr>))) \<and>
   (group_laws (group a) C e \<and> value' a \<in> C \<and> is_zero (Log (group a) e) \<and>
    (direction a = ''right'' \<or> direction a = ''left'') \<longrightarrow>
      (\<exists>d. MatrixLieGroupState_minus a a = Inr d \<and> is_zero d))"
proof (intro conjI impI)
  assume "length (value' x) = length (value' y)"
  from vector_round_trip [OF this]
  show "\<exists>d. VectorState_minus x y = Inr d \<and>
           VectorState_plus y d = Inr (y\<lparr>value' := value' x\<rparr>)"
    by blast
next
  show "\<exists>d. VectorState_minus x x = Inr d \<and> is_zero d"
    by (simp add: vector_minus_self is_zero_def list_all_length)
next
  assume "group_laws (group a) C e \<and> value' a \<in> C \<and> value' b \<in> C \<and>
    group b = group a \<and> direction b = direction a \<and>
    (direction a = ''right'' \<or> direction a = ''left'')"
  then show "\<exists>d. MatrixLieGroupState_minus a b = Inr d \<and>
           MatrixLieGroupState_plus b d = Inr (b\<lparr>value' := value' a\<rparr>)"
    using lie_round_trip [of a C e b] by blast
next
  assume "group_laws (group a) C e \<and> value' a \<in> C \<and> is_zero (Log (group a) e) \<and>
    (direction a = ''right'' \<or> direction a = ''left'')"
  then show "\<exists>d. MatrixLieGroupState_minus a a = Inr d \<and> is_zero d"
    using lie_minus_self [of a C e] by auto
qed

lemma mat_prod_affine: "mat_prod (affine a b) (affine c d) = affine (a * c) (a * d + b)"
  by (simp add: mat_prod_def affine_def dot_def col_def upt_rec)

lemma example_group_laws: "group_laws example_group {affine a b | a b. 0 < a} (affine 1 0)"
  unfolding group_laws_def
proof (intro conjI ballI)
  show "affine 1 0 \<in> {affine a b | a b. 0 < a}" by force
next
  fix g h assume "g \<in> {affine a b | a b. 0 < a}" "h \<in> {affine a b | a b. 0 < a}"
  then obtain a b c d where g: "g = affine a b" "0 < a" and h: "h = affine c d" "0 < c"
    by blast
  show "ncols g = nrows h" by (simp add: g h affine_def)
  have "0 < a * c" using g h by simp
  then show "mat_prod g h \<in> {affine a b | a b. 0 < a}"
    unfolding g h mat_prod_affine by blast
next
  fix g assume "g \<in> {affine a b | a b. 0 < a}"
  then obtain a b where g: "g = affine a b" "0 < a" by blast
  have inv: "inverse_g example_group g = affine (1 / a) (- b / a)"
    by (simp add: example_group_def g affine_def entry_def)
  have "0 < 1 / a" using g by simp
  then show "inverse_g example_group g \<in> {affine a b | a b. 0 < a}"
    unfolding inv by blast
  show "mat_prod (inverse_g example_group g) g = affine 1 0"
    unfolding inv using g by (simp add: mat_prod_affine)
  show "mat_prod g (inverse_g example_group g) = affine 1 0"
    unfolding inv using g by (simp add: mat_prod_affine)
  show "mat_prod (affine 1 0) g = g" by (simp add: g mat_prod_affine)
  show "mat_prod g (affine 1 0) = g" by (simp add: g mat_prod_affine)
  show "Exp example_group (Log example_group g) = g"
    using g by (simp add: example_group_def affine_def entry_def column_def)
next
  fix f g h
  assume "f \<in> {affine a b | a b. 0 < a}" "g \<in> {affine a b | a b. 0 < a}"
    "h \<in> {affine a b | a b. 0 < a}"
  then obtain a b c d p q where "f = affine a b" "g = affine c d" "h = affine p q"
    by blast
  then show "mat_prod (mat_prod f g) h = mat_prod f (mat_prod g h)"
    by (simp add: mat_prod_affine algebra_simps)
qed

lemma example_Log_unit: "is_zero (Log example_group (affine 1 0))"
  by (simp add: is_zero_def example_group_def affine_def entry_def column_def)

theorem C3_minus_left_inverse_of_plus_witness:
  "(\<exists>d. VectorState_minus (VectorState_init [5, 7] None (Some (1::nat)))
           (VectorState_init [1, 2] None (Some 2)) = Inr d \<and>
        VectorState_plus (VectorState_init [1, 2] None (Some (2::nat))) d =
          Inr (VectorState_init [5, 7] None (Some 2))) \<and>
   (\<exists>d. MatrixLieGroupState_minus (example_pose 2 3 ''left'') (example_pose 5 7 ''left'') = Inr d \<and>
        MatrixLieGroupState_plus (example_pose 5 7 ''left'') d = Inr (example_pose 2 3 ''left'')) \<and>
   (\<exists>d. MatrixLieGroupState_minus (example_pose 2 3 ''right'') (example_pose 5 7 ''right'') = Inr d \<and>
        MatrixLieGroupState_plus (example_pose 5 7 ''right'') d = Inr (example_pose 2 3 ''right'')) \<and>
   (\<exists>d. MatrixLieGroupState_minus (example_pose 2 3 ''left'') (example_pose 2 3 ''left'') = Inr d \<and>
        is_zero d)"
proof -
  let ?C = "{affine a b | a b. (0::real) < a}"
  have mem: "affine 2 3 \<in> ?C" "affine 5 7 \<in> ?C"
    by force+
  have len: "length (value' (VectorState_init [5, 7] None (Some (1::nat)))) =
             length (value' (VectorState_init [1, 2] None (Some (2::nat))))"
    by (simp add: VectorState_init_def)
  have upd: "(VectorState_init [1, 2] None (Some (2::nat)))\<lparr>value' :=
               value' (VectorState_init [5, 7] None (Some (1::nat)))\<rparr> =
             VectorState_init [5, 7] None (Some 2)"
    by (simp add: VectorState_init_def)
  have updp: "\<And>s. (example_pose 5 7 s)\<lparr>value' := value' (example_pose 2 3 s)\<rparr> =
              example_pose 2 3 s"
    by (simp add: example_pose_def)
  have hyp: "\<And>s. s = ''right'' \<or> s = ''left'' \<Longrightarrow>
      group_laws (group (example_pose 2 3 s)) ?C (affine 1 0) \<and>
      value' (example_pose 2 3 s) \<in> ?C \<and> value' (example_pose 5 7 s) \<in> ?C \<and>
      group (example_pose 5 7 s) = group (example_pose 2 3 s) \<and>
      direction (example_pose 5 7 s) = direction (example_pose 2 3 s) \<and>
      (direction (example_pose 2 3 s) = ''right'' \<or> direction (example_pose 2 3 s) = ''left'')"
    using example_group_laws mem by (simp add: example_pose_def)
  have hyp0: "group_laws (group (example_pose 2 3 ''left'')) ?C (affine 1 0) \<and>
      value' (example_pose 2 3 ''left'') \<in> ?C \<and>
      is_zero (Log (group (example_pose 2 3 ''left'')) (affine 1 0)) \<and>
      (direction (example_pose 2 3 ''left'') = ''right'' \<or>
       direction (example_pose 2 3 ''left'') = ''left'')"
    using example_group_laws example_Log_unit mem by (simp add: example_pose_def)
  note L = C3_minus_left_inverse_of_plus
        [of "VectorState_init [5, 7] None (Some (1::nat))" "VectorState_init [1, 2] None (Some 2)"
          "example_pose 2 3 ''left''" ?C "affine 1 0" "example_pose 5 7 ''left''"]
  note R = C3_minus_left_inverse_of_plus
        [of "VectorState_init [5, 7] None (Some (1::nat))" "VectorState_init [1, 2] None (Some 2)"
          "example_pose 2 3 ''right''" ?C "affine 1 0" "example_pose 5 7 ''right''"]
  show ?thesis
  proof (intro conjI)
    show "\<exists>d. VectorState_minus (VectorState_init [5, 7] None (Some (1::nat)))
           (VectorState_init [1, 2] None (Some 2)) = Inr d \<and>
        VectorState_plus (VectorState_init [1, 2] None (Some (2::nat))) d =
          Inr (VectorState_init [5, 7] None (Some 2))"
      using L len unfolding upd by blast
    show "\<exists>d. MatrixLieGroupState_minus (example_pose 2 3 ''left'') (example_pose 5 7 ''left'') = Inr d \<and>
        MatrixLieGroupState_plus (example_pose 5 7 ''left'') d = Inr (example_pose 2 3 ''left'')"
      using L hyp [of "''left''"] unfolding updp by blast
    show "\<exists>d. MatrixLieGroupState_minus (example_pose 2 3 ''right'') (example_pose 5 7 ''right'') = Inr d \<and>
        MatrixLieGroupState_plus (example_pose 5 7 ''right'') d = Inr (example_pose 2 3 ''right'')"
      using R hyp [of "''right''"] unfolding updp by blast
    show "\<exists>d. MatrixLieGroupState_minus (example_pose 2 3 ''left'') (example_pose 2 3 ''left'') = Inr d \<and>
        is_zero d"
      using L hyp0 by blast
  qed
qed

section \<open>Scattering a block into the columns of a slice\<close>

lemma index_Inr: "index xs a = Inr i \<Longrightarrow> i < length xs \<and> xs ! i = a"
proof (induction xs arbitrary: i)
  case Nil
  then show ?case by simp
next
  case (Cons x xs)
  show ?case
  proof (cases "x = a")
    case True
    with Cons.prems show ?thesis by simp
  next
    case False
    with Cons.prems obtain k where k: "index xs a = Inr k" "i = Suc k"
      by (auto simp: ebind_def split: sum.splits)
    with Cons.IH [OF k(1)] show ?thesis by simp
  qed
qed

lemma bget_entry: "i < nrows M \<Longrightarrow> j < ncols M \<Longrightarrow> bget M i j = entry M i j"
  by (auto simp: bget_def entry_def)

lemma entry_zeros: "i < m \<Longrightarrow> j < n \<Longrightarrow> entry (zeros m n) i j = 0"
  by (simp add: entry_def zeros_def)

lemma set_columns_fits:
  assumes "nrows B = nrows A" and "a \<le> b" and "b \<le> ncols A" and "ncols B = b - a"
  shows "set_columns A (a, b) B =
           Inr (Matrix (nrows A) (ncols A)
             (map (\<lambda>i. map (\<lambda>j. if a \<le> j \<and> j < b then bget B i (j - a) else entry A i j)
                [0..<ncols A]) [0..<nrows A]))"
  using assms by (simp add: set_columns_def Let_def min_def)

lemma sum_list_take_le: "sum_list (take i ds) \<le> sum_list (ds :: nat list)"
  using sum_take_mono [of i "max i (length ds)" ds] by simp

lemma slice_of_index:
  assumes wf: "slices x = slices_loop (substates x) 0 []"
    and i: "i < length (substates x)"
  shows "slices x ! i =
           (sum_list (map dof_of (take i (substates x))),
            sum_list (map dof_of (take i (substates x))) + dof_of (substates x ! i))"
    and "sum_list (map dof_of (take i (substates x))) + dof_of (substates x ! i)
           \<le> composite_dof x"
    and "length (slices x) = length (substates x)"
proof -
  show "slices x ! i =
           (sum_list (map dof_of (take i (substates x))),
            sum_list (map dof_of (take i (substates x))) + dof_of (substates x ! i))"
    using slices_loop_nth [OF i, of 0 "[]"] wf by simp
  have "sum_list (map dof_of (take i (substates x))) + dof_of (substates x ! i) =
        sum_list (take (Suc i) (map dof_of (substates x)))"
    using i by (simp add: take_map take_Suc_conv_app_nth)
  also have "\<dots> \<le> sum_list (map dof_of (substates x))"
    by (rule sum_list_take_le)
  finally show "sum_list (map dof_of (take i (substates x))) + dof_of (substates x ! i)
           \<le> composite_dof x"
    by (simp add: composite_dof_def)
  show "length (slices x) = length (substates x)"
    using wf by (simp add: slices_loop_length)
qed

text \<open>
  Claim C2. Let the composite have the slice table of its constructor and let the
  target identifier resolve to index \<open>idx\<close>. When the wrapped model's Jacobian on that
  sub-state is a well-formed matrix \<open>J\<close> whose width is the sub-state's \<open>dof\<close>,
  \<open>CompositeMeasurementModel.jacobian\<close> returns a matrix with the rows of \<open>J\<close> and the
  width of the composite \<open>dof\<close>, equal to \<open>J\<close> on the columns of the sub-state's slice
  (which starts at the sum of the earlier sub-states' \<open>dof\<close>) and zero on every other
  column.
\<close>

theorem C2_composite_measurement_jacobian:
  assumes wf: "slices x = slices_loop (substates x) 0 []"
    and idx: "get_index_by_id x (cmm_state_id m) = Inr idx"
    and J: "mm_jacobian (cmm_model m) (substates x ! idx) = Inr J"
    and shape: "wf_matrix J" "ncols J = dof_of (substates x ! idx)"
  shows "\<exists>R. CompositeMeasurementModel_jacobian m x = Inr R \<and>
             nrows R = nrows J \<and> ncols R = composite_dof x \<and> wf_matrix R \<and>
             (\<forall>i<nrows J. \<forall>j<composite_dof x.
                entry R i j =
                  (if sum_list (map dof_of (take idx (substates x))) \<le> j \<and>
                      j < sum_list (map dof_of (take idx (substates x))) + ncols J
                   then entry J i (j - sum_list (map dof_of (take idx (substates x))))
                   else 0))"
proof -
  let ?start = "sum_list (map dof_of (take idx (substates x)))"
  let ?n = "composite_dof x"
  let ?Z = "zeros (nrows J) ?n"
  let ?R = "Matrix (nrows J) ?n
             (map (\<lambda>i. map (\<lambda>j. if ?start \<le> j \<and> j < ?start + ncols J
                                  then bget J i (j - ?start) else entry ?Z i j)
                [0..<?n]) [0..<nrows J])"
  from idx have i: "idx < length (substates x)"
    using index_Inr [of "map state_id_of (substates x)" "cmm_state_id m" idx]
    by (simp add: get_index_by_id_def)
  note sl = slice_of_index [OF wf i]
  have state: "get_state_by_id x (cmm_state_id m) = Inr (substates x ! idx)"
    using idx i by (simp add: get_state_by_id_def ebind_def getitem_def)
  have slice: "get_slice_by_id x (cmm_state_id m) = Inr (?start, ?start + ncols J)"
    using idx i sl(1,3) shape(2) by (simp add: get_slice_by_id_def ebind_def getitem_def)
  have fits: "set_columns ?Z (?start, ?start + ncols J) J = Inr ?R"
    using set_columns_fits [of J ?Z ?start "?start + ncols J"] sl(2) shape(2)
    by (simp add: zeros_def)
  have result: "CompositeMeasurementModel_jacobian m x = Inr ?R"
    using state J slice fits
    by (simp add: CompositeMeasurementModel_jacobian_def ebind_def Let_def)
  have wfR: "wf_matrix ?R"
    by (simp add: wf_matrix_def list_all_iff)
  have entries: "\<forall>i<nrows J. \<forall>j<?n.
      entry ?R i j =
        (if ?start \<le> j \<and> j < ?start + ncols J then entry J i (j - ?start) else 0)"
  proof (intro allI impI)
    fix i j assume ij: "i < nrows J" "j < ?n"
    have "entry ?R i j =
            (if ?start \<le> j \<and> j < ?start + ncols J then bget J i (j - ?start)
             else entry ?Z i j)"
      using ij by (simp add: entry_def)
    also have "\<dots> = (if ?start \<le> j \<and> j < ?start + ncols J then entry J i (j - ?start) else 0)"
      using ij by (auto simp: bget_entry entry_zeros)
    finally show "entry ?R i j =
        (if ?start \<le> j \<and> j < ?start + ncols J then entry J i (j - ?start) else 0)" .
  qed
  from result wfR entries show ?thesis
    by (intro exI [of _ ?R]) simp
qed

lemma example_composite3_wf:
  "slices example_composite3 = slices_loop (substates example_composite3) 0 []"
  by (simp add: example_composite3_def CompositeState_init_def)

theorem C2_composite_measurement_jacobian_witness:
  "CompositeMeasurementModel_jacobian \<lparr>cmm_model = example_model, cmm_state_id = Some 2\<rparr>
     example_composite3 = Inr (Matrix 2 6 [[0, 5, 6, 0, 0, 0], [0, 7, 8, 0, 0, 0]]) \<and>
   (\<exists>R. CompositeMeasurementModel_jacobian \<lparr>cmm_model = example_model, cmm_state_id = Some 2\<rparr>
          example_composite3 = Inr R \<and> nrows R = 2 \<and> ncols R = 6 \<and>
        entry R 0 0 = 0 \<and> entry R 0 1 = 5 \<and> entry R 1 2 = 8 \<and> entry R 1 3 = 0)"
proof -
  let ?m = "\<lparr>cmm_model = example_model, cmm_state_id = Some (2::nat)\<rparr>"
  have idx: "get_index_by_id example_composite3 (cmm_state_id ?m) = Inr 1"
    by (simp add: example_composite3_def CompositeState_init_def VectorState_init_def
        get_index_by_id_def ebind_def)
  have J: "mm_jacobian (cmm_model ?m) (substates example_composite3 ! 1) =
             Inr (Matrix 2 2 [[5, 6], [7, 8]])"
    by (simp add: example_model_def)
  have shape: "wf_matrix (Matrix 2 2 [[5, 6], [7, 8]])"
    "ncols (Matrix 2 2 [[5, 6], [7, 8]]) = dof_of (substates example_composite3 ! 1)"
    by (simp_all add: wf_matrix_def example_composite3_def CompositeState_init_def
        VectorState_init_def)
  have dof: "composite_dof example_composite3 = 6"
    and start: "sum_list (map dof_of (take 1 (substates example_composite3))) = 1"
    by (simp_all add: composite_dof_def example_composite3_def CompositeState_init_def
        VectorState_init_def)
  from C2_composite_measurement_jacobian [OF example_composite3_wf idx J shape]
  obtain R where R: "CompositeMeasurementModel_jacobian ?m example_composite3 = Inr R"
    "nrows R = 2" "ncols R = 6"
    "\<forall>i<2. \<forall>j<6. entry R i j =
       (if 1 \<le> j \<and> j < 3 then entry (Matrix 2 2 [[5, 6], [7, 8]]) i (j - 1) else 0)"
    unfolding dof start by auto
  have e: "entry R 0 0 = 0" "entry R 0 1 = 5" "entry R 1 2 = 8" "entry R 1 3 = 0"
    using R(4) by (simp_all add: entry_def)
  have direct: "CompositeMeasurementModel_jacobian ?m example_composite3 =
      Inr (Matrix 2 6 [[0, 5, 6, 0, 0, 0], [0, 7, 8, 0, 0, 0]])"
    by (simp add: CompositeMeasurementModel_jacobian_def example_composite3_def
        CompositeState_init_def VectorState_init_def example_model_def
        get_state_by_id_def get_slice_by_id_def get_index_by_id_def getitem_def ebind_def
        composite_dof_def set_columns_def zeros_def bget_def entry_def Let_def upt_rec)
  from direct R(1,2,3) e show ?thesis by blast
qed

section \<open>Jacobian of a composite state from blocks\<close>

lemma slice_by_id:
  assumes wf: "slices c = slices_loop (substates c) 0 []"
    and idx: "get_index_by_id c sid = Inr idx"
  shows "get_slice_by_id c sid =
           Inr (sum_list (map dof_of (take idx (substates c))),
                sum_list (map dof_of (take idx (substates c))) + dof_of (substates c ! idx))"
    and "idx < length (substates c)"
    and "state_id_of (substates c ! idx) = sid"
proof -
  from idx have i: "idx < length (substates c)" and s: "state_id_of (substates c ! idx) = sid"
    using index_Inr [of "map state_id_of (substates c)" sid idx]
    by (auto simp: get_index_by_id_def)
  show "idx < length (substates c)" by (rule i)
  show "state_id_of (substates c ! idx) = sid" by (rule s)
  show "get_slice_by_id c sid =
           Inr (sum_list (map dof_of (take idx (substates c))),
                sum_list (map dof_of (take idx (substates c))) + dof_of (substates c ! idx))"
    using idx i slice_of_index(1,3) [OF wf i]
    by (simp add: get_slice_by_id_def ebind_def getitem_def)
qed

lemma slices_ordered:
  assumes "i < j" and "j < length ss"
  shows "sum_list (map dof_of (take i ss)) + dof_of (ss ! i) \<le> sum_list (map dof_of (take j ss))"
proof -
  have "sum_list (map dof_of (take i ss)) + dof_of (ss ! i) =
        sum_list (take (Suc i) (map dof_of ss))"
    using assms by (simp add: take_map take_Suc_conv_app_nth)
  also have "\<dots> \<le> sum_list (take j (map dof_of ss))"
    by (rule sum_take_mono) (use assms in simp)
  finally show ?thesis by (simp add: take_map)
qed

lemma slices_of_ids_disjoint:
  assumes wf: "slices c = slices_loop (substates c) 0 []"
    and s1: "get_slice_by_id c sid1 = Inr (a1, b1)"
    and s2: "get_slice_by_id c sid2 = Inr (a2, b2)"
    and ne: "sid1 \<noteq> sid2"
  shows "b1 \<le> a2 \<or> b2 \<le> a1"
proof -
  from s1 obtain i1 where i1: "get_index_by_id c sid1 = Inr i1"
    by (auto simp: get_slice_by_id_def ebind_def split: sum.splits)
  from s2 obtain i2 where i2: "get_index_by_id c sid2 = Inr i2"
    by (auto simp: get_slice_by_id_def ebind_def split: sum.splits)
  note f1 = slice_by_id [OF wf i1] and f2 = slice_by_id [OF wf i2]
  from f1(3) f2(3) ne have "i1 \<noteq> i2" by auto
  then consider "i1 < i2" | "i2 < i1" by linarith
  then show ?thesis
  proof cases
    case 1
    from slices_ordered [OF 1 f2(2)] f1(1) f2(1) s1 s2 show ?thesis by simp
  next
    case 2
    from slices_ordered [OF 2 f1(2)] f1(1) f2(1) s1 s2 show ?thesis by simp
  qed
qed

lemma set_columns_entry:
  assumes "nrows B = nrows A" and "a \<le> b" and "b \<le> ncols A" and "ncols B = b - a"
  shows "\<exists>R. set_columns A (a, b) B = Inr R \<and> nrows R = nrows A \<and> ncols R = ncols A \<and>
             wf_matrix R \<and>
             (\<forall>i<nrows A. \<forall>j<ncols A.
                entry R i j = (if a \<le> j \<and> j < b then entry B i (j - a) else entry A i j))"
proof -
  let ?R = "Matrix (nrows A) (ncols A)
             (map (\<lambda>i. map (\<lambda>j. if a \<le> j \<and> j < b then bget B i (j - a) else entry A i j)
                [0..<ncols A]) [0..<nrows A])"
  have "set_columns A (a, b) B = Inr ?R"
    by (rule set_columns_fits [OF assms])
  moreover have "wf_matrix ?R"
    by (simp add: wf_matrix_def list_all_iff)
  moreover have "\<forall>i<nrows A. \<forall>j<ncols A.
      entry ?R i j = (if a \<le> j \<and> j < b then entry B i (j - a) else entry A i j)"
    using assms by (auto simp: entry_def bget_def)
  ultimately show ?thesis
    by (intro exI [of _ ?R]) simp
qed

text \<open>
  The loop of \<open>jacobian_from_blocks\<close>, taken by itself, does scatter the blocks: started
  on a matrix \<open>A\<close> as wide as the composite, with one block per distinct identifier, each
  with the rows of \<open>A\<close> and the width of its sub-state, it returns a matrix that equals
  every block on the columns of its slice and \<open>A\<close> on the columns of no slice.
\<close>

lemma blocks_loop_scatter:
  assumes wf: "slices c = slices_loop (substates c) 0 []"
    and A: "ncols A = composite_dof c"
    and keys: "distinct (map fst bd)"
    and ok: "\<forall>p\<in>set bd. \<exists>idx. get_index_by_id c (fst p) = Inr idx \<and>
               nrows (snd p) = nrows A \<and> ncols (snd p) = dof_of (substates c ! idx)"
  shows "\<exists>R. blocks_loop c A bd = Inr R \<and> nrows R = nrows A \<and> ncols R = ncols A \<and>
     (\<forall>p\<in>set bd. \<forall>a b. get_slice_by_id c (fst p) = Inr (a, b) \<longrightarrow>
        (\<forall>i<nrows A. \<forall>j. a \<le> j \<and> j < b \<longrightarrow> entry R i j = entry (snd p) i (j - a))) \<and>
     (\<forall>i<nrows A. \<forall>j<ncols A.
        (\<forall>p\<in>set bd. \<forall>a b. get_slice_by_id c (fst p) = Inr (a, b) \<longrightarrow> \<not> (a \<le> j \<and> j < b)) \<longrightarrow>
        entry R i j = entry A i j)"
  using A keys ok
proof (induction bd arbitrary: A)
  case Nil
  then show ?case by simp
next
  case (Cons p rest)
  obtain sid B where p: "p = (sid, B)" by (cases p)
  from Cons.prems(3) p obtain idx where
    idx: "get_index_by_id c sid = Inr idx" and
    B: "nrows B = nrows A" "ncols B = dof_of (substates c ! idx)"
    by auto
  let ?a = "sum_list (map dof_of (take idx (substates c)))"
  let ?b = "?a + dof_of (substates c ! idx)"
  note sl = slice_by_id [OF wf idx]
  have le: "?b \<le> ncols A"
    using slice_of_index(2) [OF wf sl(2)] Cons.prems(1) by simp
  from set_columns_entry [of B A ?a ?b] B le obtain A' where
    A': "set_columns A (?a, ?b) B = Inr A'" "nrows A' = nrows A" "ncols A' = ncols A"
      "\<forall>i<nrows A. \<forall>j<ncols A.
         entry A' i j = (if ?a \<le> j \<and> j < ?b then entry B i (j - ?a) else entry A i j)"
    by auto
  have ok': "\<forall>q\<in>set rest. \<exists>idx. get_index_by_id c (fst q) = Inr idx \<and>
               nrows (snd q) = nrows A' \<and> ncols (snd q) = dof_of (substates c ! idx)"
    using Cons.prems(3) A'(2) by simp
  have "ncols A' = composite_dof c" "distinct (map fst rest)"
    using Cons.prems(1,2) A'(3) by simp_all
  from Cons.IH [OF this ok'] obtain R where
    R: "blocks_loop c A' rest = Inr R" "nrows R = nrows A'" "ncols R = ncols A'"
      "\<forall>q\<in>set rest. \<forall>a b. get_slice_by_id c (fst q) = Inr (a, b) \<longrightarrow>
        (\<forall>i<nrows A'. \<forall>j. a \<le> j \<and> j < b \<longrightarrow> entry R i j = entry (snd q) i (j - a))"
      "\<forall>i<nrows A'. \<forall>j<ncols A'.
        (\<forall>q\<in>set rest. \<forall>a b. get_slice_by_id c (fst q) = Inr (a, b) \<longrightarrow> \<not> (a \<le> j \<and> j < b)) \<longrightarrow>
        entry R i j = entry A' i j"
    by blast
  have run: "blocks_loop c A (p # rest) = Inr R"
    using p sl(1) A'(1) R(1) by (simp add: ebind_def)
  have apart: "\<not> (a \<le> j \<and> j < b)"
    if q: "q \<in> set rest" and s: "get_slice_by_id c (fst q) = Inr (a, b)"
      and j: "?a \<le> j" "j < ?b" for q a b j
  proof -
    from Cons.prems(2) p q have "sid \<noteq> fst q" by auto
    from slices_of_ids_disjoint [OF wf sl(1) s this] j show ?thesis by auto
  qed
  have first: "entry R i j = entry B i (j - ?a)" if "i < nrows A" "?a \<le> j" "j < ?b" for i j
  proof -
    have "j < ncols A'" using that le A'(3) by simp
    moreover have "\<forall>q\<in>set rest. \<forall>a b. get_slice_by_id c (fst q) = Inr (a, b) \<longrightarrow>
        \<not> (a \<le> j \<and> j < b)"
      using apart that by blast
    ultimately have "entry R i j = entry A' i j"
      using R(5) that(1) A'(2) by simp
    also have "\<dots> = entry B i (j - ?a)"
      using A'(4) that le by simp
    finally show ?thesis .
  qed
  have inside: "\<forall>q\<in>set (p # rest). \<forall>a b. get_slice_by_id c (fst q) = Inr (a, b) \<longrightarrow>
        (\<forall>i<nrows A. \<forall>j. a \<le> j \<and> j < b \<longrightarrow> entry R i j = entry (snd q) i (j - a))"
  proof (intro ballI allI impI)
    fix q a b i j
    assume q: "q \<in> set (p # rest)" and s: "get_slice_by_id c (fst q) = Inr (a, b)"
      and i: "i < nrows A" and j: "a \<le> j \<and> j < b"
    show "entry R i j = entry (snd q) i (j - a)"
    proof (cases "q = p")
      case True
      with s p sl(1) have "a = ?a" "b = ?b" by simp_all
      with first [OF i] j True p show ?thesis by simp
    next
      case False
      with q have "q \<in> set rest" by simp
      with R(4) s i j A'(2) show ?thesis by auto
    qed
  qed
  have outside: "\<forall>i<nrows A. \<forall>j<ncols A.
        (\<forall>q\<in>set (p # rest). \<forall>a b. get_slice_by_id c (fst q) = Inr (a, b) \<longrightarrow>
           \<not> (a \<le> j \<and> j < b)) \<longrightarrow>
        entry R i j = entry A i j"
  proof (intro allI impI)
    fix i j
    assume i: "i < nrows A" and j: "j < ncols A"
      and out: "\<forall>q\<in>set (p # rest). \<forall>a b. get_slice_by_id c (fst q) = Inr (a, b) \<longrightarrow>
           \<not> (a \<le> j \<and> j < b)"
    from out p sl(1) have notin: "\<not> (?a \<le> j \<and> j < ?b)" by auto
    from out have "\<forall>q\<in>set rest. \<forall>a b. get_slice_by_id c (fst q) = Inr (a, b) \<longrightarrow>
           \<not> (a \<le> j \<and> j < b)" by simp
    with R(5) i j A'(2,3) have "entry R i j = entry A' i j" by simp
    also have "\<dots> = entry A i j"
      using A'(4) i j notin by auto
    finally show "entry R i j = entry A i j" .
  qed
  from run R(2,3) A'(2,3) inside outside show ?case
    by (intro exI [of _ R]) simp
qed

text \<open>
  Claim C1. \<open>CompositeState.jacobian_from_blocks\<close> is claimed to return the scattered
  Jacobian for every non-empty dictionary of well-shaped blocks. The loop would do so
  (\<open>blocks_loop_scatter\<close>), but the code never reaches it: its first statement
  subscripts the view \<open>block_dict.values()\<close>, which raises \<open>TypeError\<close> for every
  composite and every dictionary.
\<close>

theorem C1_jacobian_from_blocks_raises:
  "jacobian_from_blocks c block_dict = Inl TypeError"
  by (simp add: jacobian_from_blocks_def ebind_def)

end
